theory Spec2Isabelle
  imports Complex_Main "HOL-Library.Multiset"
begin

section \<open>Data model\<close>

text \<open>
  Identifiers are the UUID strings of the tables; timestamps are the millisecond
  counts that \<^verbatim>\<open>new Date(iso).getTime()\<close> yields for the ISO strings the
  controllers store (\<^verbatim>\<open>new Date().toISOString()\<close> keeps millisecond precision,
  so the string and the count determine each other).
\<close>

type_synonym uuid = string
type_synonym timestamp = int

datatype task_status = Pending | In_progress | Completed

datatype task_priority = Low | Medium | High

text \<open>
  A row of \<^verbatim>\<open>tasks\<close> (interface \<^verbatim>\<open>Task\<close>). Title, description and due date
  are carried by the rows but read by none of the controllers below.
\<close>

record task =
  t_id :: uuid
  t_user_id :: uuid
  t_status :: task_status
  t_priority :: task_priority
  t_created_at :: timestamp
  t_updated_at :: timestamp

text \<open>A row of \<^verbatim>\<open>time_entries\<close>; \<open>e_end_time = None\<close> is SQL null: the timer runs.\<close>

record time_entry =
  e_id :: uuid
  e_task_id :: uuid
  e_user_id :: uuid
  e_start_time :: timestamp
  e_end_time :: "timestamp option"

record store =
  tasks :: "task list"
  time_entries :: "time_entry list"

text \<open>The three failure responses of the controllers: status 404, 400 and 500.\<close>

datatype failure = NotFound_404 | Conflict_400 | Failure_500

section \<open>The store client\<close>

text \<open>
  \<^verbatim>\<open>.single()\<close> of the query builder: the data is the row when the query yields
  exactly one row, and null (with an error) when it yields none or several.
\<close>

definition single :: "'a list \<Rightarrow> 'a option" where
  "single rows = (case rows of [r] \<Rightarrow> Some r | _ \<Rightarrow> None)"

text \<open>\<^verbatim>\<open>.eq('id', task_id).eq('user_id', userId)\<close> on \<^verbatim>\<open>tasks\<close>.\<close>

definition task_owned_by :: "uuid \<Rightarrow> uuid \<Rightarrow> task \<Rightarrow> bool" where
  "task_owned_by task_id userId t \<longleftrightarrow> t_id t = task_id \<and> t_user_id t = userId"

text \<open>\<^verbatim>\<open>.eq('task_id', task_id).eq('user_id', userId)\<close> on \<^verbatim>\<open>time_entries\<close>.\<close>

definition entry_of :: "uuid \<Rightarrow> uuid \<Rightarrow> time_entry \<Rightarrow> bool" where
  "entry_of task_id userId e \<longleftrightarrow> e_task_id e = task_id \<and> e_user_id e = userId"

text \<open>The same with \<^verbatim>\<open>.is('end_time', null)\<close>.\<close>

definition active_entry_of :: "uuid \<Rightarrow> uuid \<Rightarrow> time_entry \<Rightarrow> bool" where
  "active_entry_of task_id userId e \<longleftrightarrow> entry_of task_id userId e \<and> e_end_time e = None"

text \<open>
  \<^verbatim>\<open>.insert([{task_id, user_id, start_time}]).select().single()\<close>. The store
  supplies the primary key \<open>new_id\<close>; \<open>end_time\<close> is not given and stays null.
  A key that is already taken violates the primary key and is the insert's error.
\<close>

definition insert_time_entry ::
  "store \<Rightarrow> uuid \<Rightarrow> uuid \<Rightarrow> uuid \<Rightarrow> timestamp \<Rightarrow> (time_entry \<times> store) option" where
  "insert_time_entry s new_id task_id userId startTime =
     (let row = \<lparr>e_id = new_id, e_task_id = task_id, e_user_id = userId,
                 e_start_time = startTime, e_end_time = None\<rparr>
      in if new_id \<in> set (map e_id (time_entries s)) then None
         else Some (row, s\<lparr>time_entries := time_entries s @ [row]\<rparr>))"

text \<open>\<^verbatim>\<open>.update({ end_time: endTime }).eq('id', id)\<close>: every row with that id is set.\<close>

definition update_end_time :: "uuid \<Rightarrow> timestamp \<Rightarrow> time_entry list \<Rightarrow> time_entry list" where
  "update_end_time entry_id endTime rows =
     map (\<lambda>e. if e_id e = entry_id then e\<lparr>e_end_time := Some endTime\<rparr> else e) rows"

section \<open>timeController\<close>

text \<open>
  Each controller takes the store and the clock reading of its \<^verbatim>\<open>new Date()\<close>
  and returns the response with the store it leaves. The socket event emitted after
  a successful write changes neither and is left out.
\<close>

definition startTimeTracking ::
  "store \<Rightarrow> uuid \<Rightarrow> timestamp \<Rightarrow> uuid \<Rightarrow> uuid \<Rightarrow> (failure + time_entry) \<times> store" where
  "startTimeTracking s new_id now task_id userId =
     (case single (filter (task_owned_by task_id userId) (tasks s)) of
        None \<Rightarrow> (Inl NotFound_404, s)
      | Some task \<Rightarrow>
          (case single (filter (active_entry_of task_id userId) (time_entries s)) of
             Some activeEntry \<Rightarrow> (Inl Conflict_400, s)
           | None \<Rightarrow>
               (case insert_time_entry s new_id task_id userId now of
                  None \<Rightarrow> (Inl Failure_500, s)
                | Some (timeEntry, s') \<Rightarrow> (Inr timeEntry, s'))))"

text \<open>
  The update answers with \<^verbatim>\<open>.select().single()\<close>; when it does not touch exactly
  one row the request is an error and the store rolls the write back.
\<close>

definition stopTimeTracking ::
  "store \<Rightarrow> timestamp \<Rightarrow> uuid \<Rightarrow> uuid \<Rightarrow> (failure + time_entry) \<times> store" where
  "stopTimeTracking s now task_id userId =
     (case single (filter (active_entry_of task_id userId) (time_entries s)) of
        None \<Rightarrow> (Inl NotFound_404, s)
      | Some timeEntry \<Rightarrow>
          (let rows' = update_end_time (e_id timeEntry) now (time_entries s)
           in case single (filter (\<lambda>e. e_id e = e_id timeEntry) rows') of
                None \<Rightarrow> (Inl Failure_500, s)
              | Some updatedEntry \<Rightarrow> (Inr updatedEntry, s\<lparr>time_entries := rows'\<rparr>)))"

text \<open>\<^verbatim>\<open>.order('start_time', { ascending: false })\<close>.\<close>

definition order_start_time_desc :: "time_entry list \<Rightarrow> time_entry list" where
  "order_start_time_desc rows = rev (sort_key e_start_time rows)"

definition getTimeEntries :: "store \<Rightarrow> uuid \<Rightarrow> uuid \<Rightarrow> failure + time_entry list" where
  "getTimeEntries s task_id userId =
     (case single (filter (task_owned_by task_id userId) (tasks s)) of
        None \<Rightarrow> Inl NotFound_404
      | Some task \<Rightarrow> Inr (order_start_time_desc (filter (entry_of task_id userId) (time_entries s))))"

text \<open>
  \<^verbatim>\<open>new Date(x).getTime()\<close> for a nullable column: \<^verbatim>\<open>new Date(null)\<close> is the epoch.
\<close>

definition getTime :: "timestamp option \<Rightarrow> int" where
  "getTime x = (case x of None \<Rightarrow> 0 | Some ms \<Rightarrow> ms)"

text \<open>The duration every reducer computes: \<^verbatim>\<open>end.getTime() - start.getTime()\<close>.\<close>

definition entry_duration :: "time_entry \<Rightarrow> int" where
  "entry_duration entry = getTime (e_end_time entry) - e_start_time entry"

section \<open>TasksPage: the time entries of a task as the page shows them\<close>

record shown_time_entry = time_entry +
  duration_ms :: "int option"

text \<open>
  The callback of \<^verbatim>\<open>fetchTimeEntries\<close>: \<^verbatim>\<open>{ ...entry, duration_ms }\<close>. The
  start time is a non-empty string, hence truthy; \<open>now\<close> is \<^verbatim>\<open>Date.now()\<close>.
\<close>

definition with_duration_ms :: "timestamp \<Rightarrow> time_entry \<Rightarrow> shown_time_entry" where
  "with_duration_ms now entry =
     time_entry.extend entry
       (shown_time_entry.fields
          (case e_end_time entry of
             Some end_time \<Rightarrow> Some (end_time - e_start_time entry)
           | None \<Rightarrow> Some (now - e_start_time entry)))"

text \<open>\<^verbatim>\<open>fetchTimeEntries\<close>: a failed request leaves the error message instead.\<close>

definition fetchTimeEntries ::
  "timestamp \<Rightarrow> failure + time_entry list \<Rightarrow> string + shown_time_entry list" where
  "fetchTimeEntries now response =
     (case response of
        Inl err \<Rightarrow> Inl ''Failed to load time entries''
      | Inr rows \<Rightarrow> Inr (map (with_duration_ms now) rows))"

section \<open>Requests in flight\<close>

text \<open>
  The server is a single-threaded event loop: a controller runs without interruption
  from one \<^verbatim>\<open>await\<close> to the next, and each awaited store call is served by the
  store on its own. \<^verbatim>\<open>startTimeTracking\<close> awaits three store calls, so a request
  in flight is at one of three points, or has responded.
\<close>

datatype start_point =
  AwaitTask | AwaitActiveEntry | AwaitInsert | Responded "failure + time_entry"

record start_request =
  r_new_id :: uuid
  r_now :: timestamp
  r_task_id :: uuid
  r_user_id :: uuid

text \<open>One store call of the request, with the code that follows it up to the next await.\<close>

fun start_step :: "start_request \<Rightarrow> start_point \<Rightarrow> store \<Rightarrow> start_point \<times> store" where
  "start_step r AwaitTask s =
     (case single (filter (task_owned_by (r_task_id r) (r_user_id r)) (tasks s)) of
        None \<Rightarrow> (Responded (Inl NotFound_404), s)
      | Some task \<Rightarrow> (AwaitActiveEntry, s))"
| "start_step r AwaitActiveEntry s =
     (case single (filter (active_entry_of (r_task_id r) (r_user_id r)) (time_entries s)) of
        Some activeEntry \<Rightarrow> (Responded (Inl Conflict_400), s)
      | None \<Rightarrow> (AwaitInsert, s))"
| "start_step r AwaitInsert s =
     (case insert_time_entry s (r_new_id r) (r_task_id r) (r_user_id r) (r_now r) of
        None \<Rightarrow> (Responded (Inl Failure_500), s)
      | Some (timeEntry, s') \<Rightarrow> (Responded (Inr timeEntry), s'))"
| "start_step r (Responded response) s = (Responded response, s)"

text \<open>Two start requests served together: the schedule says whose store call is next.\<close>

datatype turn = First | Second

fun interleave ::
  "turn list \<Rightarrow> start_request \<Rightarrow> start_request \<Rightarrow> start_point \<times> start_point \<times> store \<Rightarrow>
   start_point \<times> start_point \<times> store" where
  "interleave [] r1 r2 c = c"
| "interleave (First # sched) r1 r2 (p1, p2, s) =
     (case start_step r1 p1 s of (p1', s') \<Rightarrow> interleave sched r1 r2 (p1', p2, s'))"
| "interleave (Second # sched) r1 r2 (p1, p2, s) =
     (case start_step r2 p2 s of (p2', s') \<Rightarrow> interleave sched r1 r2 (p1, p2', s'))"

text \<open>Calls served one after the other, each to its response.\<close>

datatype call = Start uuid timestamp uuid uuid | Stop timestamp uuid uuid

fun serve :: "store \<Rightarrow> call \<Rightarrow> store" where
  "serve s (Start new_id now task_id userId) = snd (startTimeTracking s new_id now task_id userId)"
| "serve s (Stop now task_id userId) = snd (stopTimeTracking s now task_id userId)"

text \<open>No task has two rows with a null end time.\<close>

definition one_open_entry_per_task :: "store \<Rightarrow> bool" where
  "one_open_entry_per_task s \<longleftrightarrow>
     distinct (map e_task_id (filter (\<lambda>e. e_end_time e = None) (time_entries s)))"

text \<open>An entry for the task has a null end time.\<close>

definition has_open_entry :: "store \<Rightarrow> uuid \<Rightarrow> bool" where
  "has_open_entry s task_id \<longleftrightarrow>
     (\<exists>e\<in>set (time_entries s). e_task_id e = task_id \<and> e_end_time e = None)"

text \<open>The user owns a task with the id.\<close>

definition owns_task :: "store \<Rightarrow> uuid \<Rightarrow> uuid \<Rightarrow> bool" where
  "owns_task s task_id userId \<longleftrightarrow> (\<exists>t\<in>set (tasks s). task_owned_by task_id userId t)"

text \<open>
  The keys of the schema: the ids of tasks and of time entries are primary keys, and
  the task and the user of a time entry name a task row with that owner.
\<close>

definition keys_ok :: "store \<Rightarrow> bool" where
  "keys_ok s \<longleftrightarrow>
     distinct (map t_id (tasks s)) \<and>
     distinct (map e_id (time_entries s)) \<and>
     (\<forall>e\<in>set (time_entries s). owns_task s (e_task_id e) (e_user_id e))"

section \<open>statisticsController\<close>

text \<open>The optional \<^verbatim>\<open>start_date\<close> and \<^verbatim>\<open>end_date\<close> of the query string.\<close>

record window =
  start_date :: "timestamp option"
  end_date :: "timestamp option"

text \<open>\<^verbatim>\<open>if (start_date) q = q.gte(col, start_date)\<close>, \<^verbatim>\<open>if (end_date) q = q.lte(col, end_date)\<close>.\<close>

definition gte_start :: "window \<Rightarrow> timestamp \<Rightarrow> bool" where
  "gte_start w x = (case start_date w of None \<Rightarrow> True | Some d \<Rightarrow> d \<le> x)"

definition lte_end :: "window \<Rightarrow> timestamp \<Rightarrow> bool" where
  "lte_end w x = (case end_date w of None \<Rightarrow> True | Some d \<Rightarrow> x \<le> d)"

record 'a by_priority =
  high :: 'a
  medium :: 'a
  low :: 'a

record task_statistics =
  total_tasks :: nat
  completed_tasks :: nat
  in_progress_tasks :: nat
  pending_tasks :: nat
  completion_rate :: real
  tasks_by_priority :: "nat by_priority"
  completion_rate_by_priority :: "real by_priority"

text \<open>
  The rate of one priority bucket:
  \<^verbatim>\<open>n > 0 ? (tasks.filter(priority && completed).length / n) * 100 : 0\<close>.
\<close>

definition priority_rate :: "task list \<Rightarrow> task_priority \<Rightarrow> nat \<Rightarrow> real" where
  "priority_rate ts p n =
     (if n > 0
      then (real (length (filter (\<lambda>task. t_priority task = p \<and> t_status task = Completed) ts)) / real n) * 100
      else 0)"

definition getTaskStatistics :: "store \<Rightarrow> uuid \<Rightarrow> window \<Rightarrow> task_statistics" where
  "getTaskStatistics s userId w =
     (let ts = filter (\<lambda>t. t_user_id t = userId \<and> gte_start w (t_created_at t) \<and> lte_end w (t_created_at t))
                 (tasks s);
          totalTasks = length ts;
          completedTasks = length (filter (\<lambda>task. t_status task = Completed) ts);
          inProgressTasks = length (filter (\<lambda>task. t_status task = In_progress) ts);
          pendingTasks = length (filter (\<lambda>task. t_status task = Pending) ts);
          completionRate = (if totalTasks > 0 then (real completedTasks / real totalTasks) * 100 else 0);
          tasksByPriority =
            \<lparr>high = length (filter (\<lambda>task. t_priority task = High) ts),
             medium = length (filter (\<lambda>task. t_priority task = Medium) ts),
             low = length (filter (\<lambda>task. t_priority task = Low) ts)\<rparr>;
          completionRateByPriority =
            \<lparr>high = priority_rate ts High (high tasksByPriority),
             medium = priority_rate ts Medium (medium tasksByPriority),
             low = priority_rate ts Low (low tasksByPriority)\<rparr>
      in \<lparr>total_tasks = totalTasks, completed_tasks = completedTasks,
          in_progress_tasks = inProgressTasks, pending_tasks = pendingTasks,
          completion_rate = completionRate, tasks_by_priority = tasksByPriority,
          completion_rate_by_priority = completionRateByPriority\<rparr>)"

text \<open>
  \<^verbatim>\<open>acc[key] = (acc[key] || 0) + amount\<close> on a \<^verbatim>\<open>Record\<close>: an object keeps its
  string keys in the order of their first assignment.
\<close>

fun record_add :: "'k \<Rightarrow> 'v::plus \<Rightarrow> ('k \<times> 'v) list \<Rightarrow> ('k \<times> 'v) list" where
  "record_add key amount [] = [(key, amount)]"
| "record_add key amount ((k, v) # acc) =
     (if k = key then (k, v + amount) # acc else (k, v) # record_add key amount acc)"

text \<open>
  The clock of the server is taken to be UTC and its locale \<^verbatim>\<open>en-US\<close>: a calendar
  day is a count of days since 1 January 1970, a Thursday, and
  \<^verbatim>\<open>new Date(d.toLocaleDateString())\<close> is the midnight that begins the day of \<open>d\<close>.
\<close>

definition ms_per_day :: int where
  "ms_per_day = 1000 * 60 * 60 * 24"

definition toLocaleDateString :: "timestamp \<Rightarrow> int" where
  "toLocaleDateString ms = ms div ms_per_day"

definition date_of_day :: "int \<Rightarrow> timestamp" where
  "date_of_day day = day * ms_per_day"

definition weekday_long :: "timestamp \<Rightarrow> string" where
  "weekday_long ms =
     [''Thursday'', ''Friday'', ''Saturday'', ''Sunday'', ''Monday'', ''Tuesday'', ''Wednesday'']
       ! nat (toLocaleDateString ms mod 7)"

record time_statistics =
  total_time_ms :: int
  total_time_hours :: real
  time_by_priority :: "(task_priority \<times> int) list"
  average_time_per_task_ms :: real
  average_time_per_task_hours :: real
  time_by_day :: "(string \<times> int) list"

text \<open>
  The rows of the time query: the closed entries of the user in the window, each with
  its embedded task (\<^verbatim>\<open>tasks (id, title, priority, status)\<close>, null when no task row
  has the entry's task id).
\<close>

definition time_query :: "store \<Rightarrow> uuid \<Rightarrow> window \<Rightarrow> (time_entry \<times> task option) list" where
  "time_query s userId w =
     map (\<lambda>e. (e, find (\<lambda>t. t_id t = e_task_id e) (tasks s)))
       (filter (\<lambda>e. e_user_id e = userId \<and> e_end_time e \<noteq> None \<and>
                     gte_start w (e_start_time e) \<and> lte_end w (getTime (e_end_time e)))
          (time_entries s))"

text \<open>
  \<^verbatim>\<open>entry.tasks.priority\<close> throws on a null task; the \<^verbatim>\<open>catch\<close> answers 500.
\<close>

definition getTimeStatistics :: "store \<Rightarrow> uuid \<Rightarrow> window \<Rightarrow> failure + time_statistics" where
  "getTimeStatistics s userId w =
     (let timeEntries = time_query s userId w;
          totalTimeMs = foldl (\<lambda>total (entry, t). total + entry_duration entry) 0 timeEntries
      in if \<exists>(entry, t)\<in>set timeEntries. t = None then Inl Failure_500
         else
           let timeByPriority =
                 foldl (\<lambda>acc (entry, t). record_add (t_priority (the t)) (entry_duration entry) acc) []
                   timeEntries;
               uniqueTasks = remdups (map (\<lambda>(entry, t). e_task_id entry) timeEntries);
               averageTimePerTask =
                 (if length uniqueTasks > 0 then real_of_int totalTimeMs / real (length uniqueTasks) else 0);
               timeByDay =
                 foldl (\<lambda>acc (entry, t). record_add (weekday_long (e_start_time entry)) (entry_duration entry) acc) []
                   timeEntries
           in Inr \<lparr>total_time_ms = totalTimeMs,
                   total_time_hours = real_of_int totalTimeMs / (1000 * 60 * 60),
                   time_by_priority = timeByPriority,
                   average_time_per_task_ms = averageTimePerTask,
                   average_time_per_task_hours = averageTimePerTask / (1000 * 60 * 60),
                   time_by_day = timeByDay\<rparr>)"

record productivity_metrics =
  total_completed_tasks :: nat
  tasks_per_day :: "(int \<times> nat) list"
  average_tasks_per_day :: real
  current_streak :: nat
  longest_streak :: nat

text \<open>
  The streak loop, \<^verbatim>\<open>for (let i = 0; i < dates.length; i++)\<close>, with its two
  variables; the first pass sets \<^verbatim>\<open>tempStreak\<close> and continues.
\<close>

function streak_loop :: "timestamp list \<Rightarrow> nat \<Rightarrow> nat \<Rightarrow> nat \<Rightarrow> nat \<times> nat" where
  "streak_loop dates i tempStreak longestStreak =
     (if i < length dates then
        (if i = 0 then streak_loop dates (i + 1) 1 longestStreak
         else
           let diffDays = (dates ! i - dates ! (i - 1)) div ms_per_day;
               tempStreak' = (if diffDays = 1 then tempStreak + 1 else 1)
           in streak_loop dates (i + 1) tempStreak' (max longestStreak tempStreak'))
      else (tempStreak, longestStreak))"
  by pat_completeness auto
termination
  by (relation "measure (\<lambda>(dates, i, tempStreak, longestStreak). length dates - i)") auto

text \<open>
  \<^verbatim>\<open>dates[dates.length - 1]\<close> is \<^verbatim>\<open>undefined\<close> for no dates, and
  \<^verbatim>\<open>lastDate.getTime()\<close> then throws; the \<^verbatim>\<open>catch\<close> answers 500.
\<close>

definition getProductivityMetrics ::
  "store \<Rightarrow> uuid \<Rightarrow> window \<Rightarrow> timestamp \<Rightarrow> failure + productivity_metrics" where
  "getProductivityMetrics s userId w today =
     (let completedTasks =
            filter (\<lambda>t. t_user_id t = userId \<and> t_status t = Completed \<and>
                         gte_start w (t_updated_at t) \<and> lte_end w (t_updated_at t))
              (tasks s);
          tasksPerDay =
            foldl (\<lambda>acc task. record_add (toLocaleDateString (t_updated_at task)) (1::nat) acc) []
              completedTasks;
          uniqueDays = length (map fst tasksPerDay);
          averageTasksPerDay =
            (if uniqueDays > 0 then real (length completedTasks) / real uniqueDays else 0);
          dates = sort (map date_of_day (map fst tasksPerDay));
          (tempStreak, longestStreak) = streak_loop dates 0 0 0
      in if dates = [] then Inl Failure_500
         else
           let lastDate = dates ! (length dates - 1);
               diffDays = (today - lastDate) div ms_per_day;
               currentStreak = (if diffDays \<le> 1 then tempStreak else 0)
           in Inr \<lparr>total_completed_tasks = length completedTasks,
                   tasks_per_day = tasksPerDay,
                   average_tasks_per_day = averageTasksPerDay,
                   current_streak = currentStreak,
                   longest_streak = longestStreak\<rparr>)"

section \<open>statisticsService of the client\<close>

text \<open>
  \<^verbatim>\<open>statisticsService.getProductivityMetrics\<close>: the request throws on a failure
  response, and the \<^verbatim>\<open>catch\<close> ("If there's an error (like no tasks), return default
  values") returns metrics that are all zero.
\<close>

definition client_getProductivityMetrics ::
  "failure + productivity_metrics \<Rightarrow> productivity_metrics" where
  "client_getProductivityMetrics response =
     (case response of
        Inl err \<Rightarrow>
          \<lparr>total_completed_tasks = 0, tasks_per_day = [], average_tasks_per_day = 0,
           current_streak = 0, longest_streak = 0\<rparr>
      | Inr m \<Rightarrow> m)"

section \<open>StatisticsPage of the client\<close>

text \<open>
  The page shows each rate of the task statistics as
  \<^verbatim>\<open>(rate * 100).toFixed(1)\<close> followed by a percent sign; this is the number before
  it is rounded to one decimal.
\<close>

definition shown_percent :: "real \<Rightarrow> real" where
  "shown_percent rate = rate * 100"

section \<open>The rates in words\<close>

text \<open>The tasks of the user created in the window: the rows the task query selects.\<close>

definition tasks_in_window :: "store \<Rightarrow> uuid \<Rightarrow> window \<Rightarrow> task list" where
  "tasks_in_window s userId w =
     filter (\<lambda>t. t_user_id t = userId \<and> gte_start w (t_created_at t) \<and> lte_end w (t_created_at t))
       (tasks s)"

text \<open>A rate as a fraction: completed / total, and 0 when the total is 0.\<close>

definition completed_fraction :: "nat \<Rightarrow> nat \<Rightarrow> real" where
  "completed_fraction n_completed n_total =
     (if n_total = 0 then 0 else real n_completed / real n_total)"

section \<open>The streak in words\<close>

text \<open>
  Walking calendar days in ascending order: the running streak goes up by one when
  the day follows the previous one, and starts again at one otherwise.
\<close>

fun running_streaks :: "int \<Rightarrow> nat \<Rightarrow> int list \<Rightarrow> nat list" where
  "running_streaks prev run [] = []"
| "running_streaks prev run (day # days) =
     (let run' = (if day - prev = 1 then run + 1 else 1)
      in run' # running_streaks day run' days)"

text \<open>The running values seen on the whole walk; the first day starts a streak of one.\<close>

fun streak_values :: "int list \<Rightarrow> nat list" where
  "streak_values [] = []"
| "streak_values (day # days) = 1 # running_streaks day 1 days"

definition final_streak :: "int list \<Rightarrow> nat" where
  "final_streak days = (case streak_values days of [] \<Rightarrow> 0 | v # vs \<Rightarrow> last (v # vs))"

definition max_streak :: "int list \<Rightarrow> nat" where
  "max_streak days = foldr max (streak_values days) 0"

text \<open>The distinct completion days of the window, ascending.\<close>

definition completion_days :: "store \<Rightarrow> uuid \<Rightarrow> window \<Rightarrow> int list" where
  "completion_days s userId w =
     sort (remdups (map (\<lambda>t. toLocaleDateString (t_updated_at t))
       (filter (\<lambda>t. t_user_id t = userId \<and> t_status t = Completed \<and>
                     gte_start w (t_updated_at t) \<and> lte_end w (t_updated_at t))
          (tasks s))))"

text \<open>The closed entries of the user in the window: the rows the time query selects.\<close>

definition closed_entries :: "store \<Rightarrow> uuid \<Rightarrow> window \<Rightarrow> time_entry list" where
  "closed_entries s userId w =
     filter (\<lambda>e. e_user_id e = userId \<and> e_end_time e \<noteq> None \<and>
                   gte_start w (e_start_time e) \<and> lte_end w (getTime (e_end_time e)))
       (time_entries s)"

section \<open>Stores used as examples\<close>

definition task1 :: task where
  "task1 = \<lparr>t_id = ''t1'', t_user_id = ''u1'', t_status = Completed, t_priority = High,
            t_created_at = 0, t_updated_at = 1000\<rparr>"

definition store_idle :: store where
  "store_idle = \<lparr>tasks = [task1], time_entries = []\<rparr>"

definition entry1 :: time_entry where
  "entry1 = \<lparr>e_id = ''e1'', e_task_id = ''t1'', e_user_id = ''u1'',
             e_start_time = 1000, e_end_time = None\<rparr>"

definition store_running :: store where
  "store_running = \<lparr>tasks = [task1], time_entries = [entry1]\<rparr>"

definition no_window :: window where
  "no_window = \<lparr>start_date = None, end_date = None\<rparr>"

text \<open>A task of user \<open>u1\<close> completed one hour into the given day.\<close>

definition task_on :: "uuid \<Rightarrow> int \<Rightarrow> task" where
  "task_on i day = \<lparr>t_id = i, t_user_id = ''u1'', t_status = Completed, t_priority = Medium,
                    t_created_at = 0, t_updated_at = day * 86400000 + 3600000\<rparr>"

text \<open>
  Completions on 1, 2 and 5 January 2024 (days 19723, 19724 and 19727), two of them on
  the second day, stored out of order.
\<close>

definition store_resumed :: store where
  "store_resumed =
     \<lparr>tasks = [task_on ''a'' 19727, task_on ''b'' 19723, task_on ''c'' 19724, task_on ''d'' 19724],
      time_entries = []\<rparr>"

text \<open>Two start requests of user \<open>u1\<close> for task \<open>t1\<close>.\<close>

definition request1 :: start_request where
  "request1 = \<lparr>r_new_id = ''e1'', r_now = 1000, r_task_id = ''t1'', r_user_id = ''u1''\<rparr>"

definition request2 :: start_request where
  "request2 = \<lparr>r_new_id = ''e2'', r_now = 1001, r_task_id = ''t1'', r_user_id = ''u1''\<rparr>"

text \<open>Two closed entries on task \<open>t1\<close>, of 30 and of 90 minutes, and an open one.\<close>

definition store_two_closed :: store where
  "store_two_closed =
     \<lparr>tasks = [task1],
      time_entries =
        [\<lparr>e_id = ''e1'', e_task_id = ''t1'', e_user_id = ''u1'',
          e_start_time = 0, e_end_time = Some 1800000\<rparr>,
         \<lparr>e_id = ''e2'', e_task_id = ''t1'', e_user_id = ''u1'',
          e_start_time = 86400000, e_end_time = Some 91800000\<rparr>,
         \<lparr>e_id = ''e3'', e_task_id = ''t1'', e_user_id = ''u1'',
          e_start_time = 172800000, e_end_time = None\<rparr>]\<rparr>"

section \<open>Facts about the store client\<close>

lemma single_Some_iff: "single rows = Some r \<longleftrightarrow> rows = [r]"
  by (auto simp: single_def split: list.splits)

lemma filter_eq_singletonD:
  "filter P xs = [x] \<Longrightarrow>
   \<exists>pre post. xs = pre @ x # post \<and> P x \<and> (\<forall>y\<in>set pre. \<not> P y) \<and> (\<forall>y\<in>set post. \<not> P y)"
proof (induction xs)
  case Nil
  then show ?case by simp
next
  case (Cons a xs)
  show ?case
  proof (cases "P a")
    case True
    with Cons.prems have "a = x" and "filter P xs = []" by simp_all
    then have "\<forall>y\<in>set xs. \<not> P y" by (simp add: filter_empty_conv)
    with True \<open>a = x\<close> show ?thesis by (intro exI[of _ "[]"] exI[of _ xs]) simp
  next
    case False
    with Cons.prems have "filter P xs = [x]" by simp
    from Cons.IH[OF this] obtain pre post where
      "xs = pre @ x # post" "P x" "\<forall>y\<in>set pre. \<not> P y" "\<forall>y\<in>set post. \<not> P y" by blast
    with False show ?thesis by (intro exI[of _ "a # pre"] exI[of _ post]) simp
  qed
qed

lemma update_end_time_other:
  "\<forall>y\<in>set rows. e_id y \<noteq> i \<Longrightarrow> update_end_time i t rows = rows"
  by (induction rows) (auto simp: update_end_time_def)

lemma filter_id_update_end_time:
  "filter (\<lambda>e. e_id e = i) (update_end_time i t rows) =
   update_end_time i t (filter (\<lambda>e. e_id e = i) rows)"
  by (induction rows) (auto simp: update_end_time_def)

section \<open>Stopping a timer\<close>

text \<open>
  C10. A successful stop changes one thing: the end time of the open entry it matched.
  The returned entry is that entry with \<open>end_time\<close> set to the clock reading; its id,
  task, user and start time are those of the matched entry. In the store the returned
  entry stands where the matched one stood, every other time entry and every task is
  as before.
\<close>

theorem stopTimeTracking_frame:
  assumes "stopTimeTracking s now task_id userId = (Inr updatedEntry, s')"
  shows "\<exists>pre timeEntry post.
           time_entries s = pre @ timeEntry # post \<and>
           time_entries s' = pre @ updatedEntry # post \<and>
           tasks s' = tasks s \<and>
           active_entry_of task_id userId timeEntry \<and>
           updatedEntry = timeEntry\<lparr>e_end_time := Some now\<rparr> \<and>
           e_id updatedEntry = e_id timeEntry \<and>
           e_task_id updatedEntry = e_task_id timeEntry \<and>
           e_user_id updatedEntry = e_user_id timeEntry \<and>
           e_start_time updatedEntry = e_start_time timeEntry \<and>
           e_end_time updatedEntry = Some now"
proof -
  from assms obtain timeEntry where
    act: "filter (active_entry_of task_id userId) (time_entries s) = [timeEntry]"
    and upd: "filter (\<lambda>e. e_id e = e_id timeEntry)
                (update_end_time (e_id timeEntry) now (time_entries s)) = [updatedEntry]"
    and s': "s' = s\<lparr>time_entries := update_end_time (e_id timeEntry) now (time_entries s)\<rparr>"
    by (auto simp: stopTimeTracking_def Let_def single_Some_iff split: option.splits)
  have "timeEntry \<in> set (filter (active_entry_of task_id userId) (time_entries s))"
    by (simp add: act)
  then have mem: "timeEntry \<in> set (time_entries s)"
    and a: "active_entry_of task_id userId timeEntry"
    by simp_all
  from upd have u1: "update_end_time (e_id timeEntry) now
      (filter (\<lambda>e. e_id e = e_id timeEntry) (time_entries s)) = [updatedEntry]"
    by (simp add: filter_id_update_end_time)
  then obtain x where fx: "filter (\<lambda>e. e_id e = e_id timeEntry) (time_entries s) = [x]"
    by (auto simp: update_end_time_def map_eq_Cons_conv)
  then have "x \<in> set (filter (\<lambda>e. e_id e = e_id timeEntry) (time_entries s))" by simp
  then have "e_id x = e_id timeEntry" by simp
  with u1 fx have ux: "updatedEntry = x\<lparr>e_end_time := Some now\<rparr>"
    by (simp add: update_end_time_def)
  have "timeEntry \<in> set (filter (\<lambda>e. e_id e = e_id timeEntry) (time_entries s))"
    using mem by simp
  with fx have "x = timeEntry" by simp
  from filter_eq_singletonD[OF fx] obtain pre post where
    sp: "time_entries s = pre @ x # post" "\<forall>y\<in>set pre. e_id y \<noteq> e_id timeEntry"
        "\<forall>y\<in>set post. e_id y \<noteq> e_id timeEntry" by blast
  have "update_end_time (e_id timeEntry) now (time_entries s) = pre @ updatedEntry # post"
    using sp ux \<open>x = timeEntry\<close> update_end_time_other[OF sp(2)] update_end_time_other[OF sp(3)]
    by (simp add: update_end_time_def)
  with s' sp a ux \<open>x = timeEntry\<close> show ?thesis
    by (intro exI[of _ pre] exI[of _ timeEntry] exI[of _ post]) simp
qed

theorem stopTimeTracking_frame_witness:
  "stopTimeTracking store_running 2000 ''t1'' ''u1'' =
     (Inr (entry1\<lparr>e_end_time := Some 2000\<rparr>),
      store_running\<lparr>time_entries := [entry1\<lparr>e_end_time := Some 2000\<rparr>]\<rparr>) \<and>
   (\<exists>pre timeEntry post.
      time_entries store_running = pre @ timeEntry # post \<and>
      time_entries (store_running\<lparr>time_entries := [entry1\<lparr>e_end_time := Some 2000\<rparr>]\<rparr>) =
        pre @ entry1\<lparr>e_end_time := Some 2000\<rparr> # post \<and>
      tasks (store_running\<lparr>time_entries := [entry1\<lparr>e_end_time := Some 2000\<rparr>]\<rparr>) =
        tasks store_running \<and>
      active_entry_of ''t1'' ''u1'' timeEntry \<and>
      entry1\<lparr>e_end_time := Some 2000\<rparr> = timeEntry\<lparr>e_end_time := Some 2000\<rparr> \<and>
      e_id (entry1\<lparr>e_end_time := Some 2000\<rparr>) = e_id timeEntry \<and>
      e_task_id (entry1\<lparr>e_end_time := Some 2000\<rparr>) = e_task_id timeEntry \<and>
      e_user_id (entry1\<lparr>e_end_time := Some 2000\<rparr>) = e_user_id timeEntry \<and>
      e_start_time (entry1\<lparr>e_end_time := Some 2000\<rparr>) = e_start_time timeEntry \<and>
      e_end_time (entry1\<lparr>e_end_time := Some 2000\<rparr>) = Some 2000)"
proof -
  have h: "stopTimeTracking store_running 2000 ''t1'' ''u1'' =
     (Inr (entry1\<lparr>e_end_time := Some 2000\<rparr>),
      store_running\<lparr>time_entries := [entry1\<lparr>e_end_time := Some 2000\<rparr>]\<rparr>)"
    by (simp add: stopTimeTracking_def store_running_def entry1_def single_def
        active_entry_of_def entry_of_def update_end_time_def)
  show ?thesis by (rule conjI[OF h stopTimeTracking_frame[OF h]])
qed

section \<open>Facts about the productivity metrics\<close>

lemma fst_record_add:
  "map fst (record_add k a acc) = (if k \<in> set (map fst acc) then map fst acc else map fst acc @ [k])"
  by (induction k a acc rule: record_add.induct) auto

lemma keys_foldl_record_add:
  "distinct (map fst acc) \<Longrightarrow>
   distinct (map fst (foldl (\<lambda>acc x. record_add (key x) (amount x) acc) acc xs)) \<and>
   set (map fst (foldl (\<lambda>acc x. record_add (key x) (amount x) acc) acc xs)) = set (map fst acc) \<union> key ` set xs"
proof (induction xs arbitrary: acc)
  case Nil
  then show ?case by simp
next
  case (Cons x xs)
  have d: "distinct (map fst (record_add (key x) (amount x) acc))"
    using Cons.prems by (simp add: fst_record_add)
  have s: "set (map fst (record_add (key x) (amount x) acc)) = insert (key x) (set (map fst acc))"
    by (auto simp add: fst_record_add)
  from Cons.IH[OF d] s show ?case by auto
qed

lemma ms_per_day_pos: "0 < ms_per_day"
  by (simp add: ms_per_day_def)

lemma date_of_day_diff: "(date_of_day a - date_of_day b) div ms_per_day = a - b"
proof -
  have "date_of_day a - date_of_day b = (a - b) * ms_per_day"
    by (simp add: date_of_day_def algebra_simps)
  then show ?thesis using ms_per_day_pos by simp
qed

lemma today_diff: "(today - date_of_day d) div ms_per_day = toLocaleDateString today - d"
proof -
  have "(today + (- d) * ms_per_day) div ms_per_day = (- d) + today div ms_per_day"
    by (rule div_mult_self1) (use ms_per_day_pos in simp)
  then show ?thesis by (simp add: toLocaleDateString_def date_of_day_def)
qed

lemma sort_map_date_of_day: "sort (map date_of_day ds) = map date_of_day (sort ds)"
proof -
  have "mono date_of_day" using ms_per_day_pos
    by (auto simp: mono_def date_of_day_def intro: mult_right_mono)
  have "sorted_wrt (\<lambda>x y. date_of_day x \<le> date_of_day y) (sort ds)"
    by (rule sorted_wrt_mono_rel[of _ "(\<le>)"]) (use \<open>mono date_of_day\<close> in \<open>auto simp: mono_def\<close>)
  then have "sorted (map date_of_day (sort ds))"
    by (simp add: sorted_map)
  moreover have "mset (map date_of_day (sort ds)) = mset (map date_of_day ds)" by simp
  ultimately show ?thesis by (metis properties_for_sort mset_sort)
qed

lemma streak_loop_walk:
  "0 < i \<Longrightarrow> i \<le> length days \<Longrightarrow>
   streak_loop (map date_of_day days) i t l =
     (last (t # running_streaks (days ! (i - 1)) t (drop i days)),
      foldl max l (running_streaks (days ! (i - 1)) t (drop i days)))"
proof (induction "length days - i" arbitrary: i t l)
  case 0
  then have "i = length days" by simp
  then show ?case by (subst streak_loop.simps) simp
next
  case (Suc n)
  then have lt: "i < length days" by simp
  define t' where "t' = (if days ! i - days ! (i - 1) = 1 then t + 1 else 1)"
  have dr: "drop i days = days ! i # drop (Suc i) days"
    using lt by (simp add: Cons_nth_drop_Suc)
  have step: "streak_loop (map date_of_day days) i t l =
      streak_loop (map date_of_day days) (i + 1) t' (max l t')"
    using lt Suc.prems(1) by (subst streak_loop.simps) (simp add: Let_def date_of_day_diff t'_def)
  have "n = length days - (i + 1)" using Suc.hyps(2) by simp
  from Suc.hyps(1)[OF this, of t' "max l t'"] lt
  have "streak_loop (map date_of_day days) (i + 1) t' (max l t') =
     (last (t' # running_streaks (days ! i) t' (drop (i + 1) days)),
      foldl max (max l t') (running_streaks (days ! i) t' (drop (i + 1) days)))"
    by simp
  with step show ?case by (simp add: dr Let_def t'_def)
qed

lemma streak_loop_days:
  "streak_loop (map date_of_day (d # ds)) 0 0 0 =
     (last (1 # running_streaks d 1 ds), foldl max 0 (running_streaks d 1 ds))"
proof -
  have "streak_loop (map date_of_day (d # ds)) 0 0 0 = streak_loop (map date_of_day (d # ds)) 1 1 0"
    by (subst streak_loop.simps) simp
  also have "\<dots> = (last (1 # running_streaks d 1 ds), foldl max 0 (running_streaks d 1 ds))"
    using streak_loop_walk[of 1 "d # ds" 1 0] by simp
  finally show ?thesis .
qed

lemma sorted_keys_eq_completion_days:
  "sort (map fst (foldl (\<lambda>acc task. record_add (toLocaleDateString (t_updated_at task)) (1::nat) acc) []
      (filter (\<lambda>t. t_user_id t = userId \<and> t_status t = Completed \<and>
                         gte_start w (t_updated_at t) \<and> lte_end w (t_updated_at t)) (tasks s)))) =
   completion_days s userId w"
proof -
  let ?cs = "filter (\<lambda>t. t_user_id t = userId \<and> t_status t = Completed \<and>
                         gte_start w (t_updated_at t) \<and> lte_end w (t_updated_at t)) (tasks s)"
  let ?keys = "map fst (foldl (\<lambda>acc task. record_add (toLocaleDateString (t_updated_at task)) (1::nat) acc) [] ?cs)"
  have k: "distinct ?keys" "set ?keys = (\<lambda>t. toLocaleDateString (t_updated_at t)) ` set ?cs"
    using keys_foldl_record_add[of "[]" "\<lambda>t. toLocaleDateString (t_updated_at t)" "\<lambda>t. 1::nat" ?cs]
    by simp_all
  have "sort ?keys = sort (remdups (map (\<lambda>t. toLocaleDateString (t_updated_at t)) ?cs))"
    by (rule sorted_distinct_set_unique) (use k in simp_all)
  then show ?thesis by (simp add: completion_days_def)
qed

lemma getProductivityMetrics_days:
  assumes "completion_days s userId w = d # ds"
  shows "\<exists>m. getProductivityMetrics s userId w today = Inr m \<and>
           current_streak m =
             (if toLocaleDateString today - last (d # ds) \<le> 1 then last (1 # running_streaks d 1 ds) else 0) \<and>
           longest_streak m = foldl max 0 (running_streaks d 1 ds)"
proof -
  let ?cs = "filter (\<lambda>t. t_user_id t = userId \<and> t_status t = Completed \<and>
                         gte_start w (t_updated_at t) \<and> lte_end w (t_updated_at t)) (tasks s)"
  let ?tpd = "foldl (\<lambda>acc task. record_add (toLocaleDateString (t_updated_at task)) (1::nat) acc) [] ?cs"
  have dates: "sort (map date_of_day (map fst ?tpd)) = map date_of_day (d # ds)"
    using sorted_keys_eq_completion_days[of userId w s] assms
    by (simp only: sort_map_date_of_day)
  have lastd: "map date_of_day (d # ds) ! (length (map date_of_day (d # ds)) - 1) = date_of_day (last (d # ds))"
    by (simp add: last_conv_nth nth_Cons')
  show ?thesis
    unfolding getProductivityMetrics_def Let_def dates streak_loop_days lastd today_diff
    by simp
qed

lemma getProductivityMetrics_no_days:
  assumes "completion_days s userId w = []"
  shows "getProductivityMetrics s userId w today = Inl Failure_500"
proof -
  let ?cs = "filter (\<lambda>t. t_user_id t = userId \<and> t_status t = Completed \<and>
                         gte_start w (t_updated_at t) \<and> lte_end w (t_updated_at t)) (tasks s)"
  let ?tpd = "foldl (\<lambda>acc task. record_add (toLocaleDateString (t_updated_at task)) (1::nat) acc) [] ?cs"
  have dates: "sort (map date_of_day (map fst ?tpd)) = map date_of_day []"
    using sorted_keys_eq_completion_days[of userId w s] assms
    by (simp only: sort_map_date_of_day)
  show ?thesis
    unfolding getProductivityMetrics_def Let_def dates
    by simp
qed

lemma completion_days_Nil_iff:
  "completion_days s userId w = [] \<longleftrightarrow>
   (\<forall>t\<in>set (tasks s). \<not> (t_user_id t = userId \<and> t_status t = Completed \<and>
                         gte_start w (t_updated_at t) \<and> lte_end w (t_updated_at t)))"
proof -
  let ?P = "\<lambda>t. t_user_id t = userId \<and> t_status t = Completed \<and>
                         gte_start w (t_updated_at t) \<and> lte_end w (t_updated_at t)"
  have "set (completion_days s userId w) =
      (\<lambda>t. toLocaleDateString (t_updated_at t)) ` set (filter ?P (tasks s))"
    unfolding completion_days_def by (simp only: set_sort set_remdups set_map)
  then have "set (completion_days s userId w) = {} \<longleftrightarrow> filter ?P (tasks s) = []"
    by (simp only: image_is_empty set_empty)
  then have "completion_days s userId w = [] \<longleftrightarrow> filter ?P (tasks s) = []"
    by (simp only: set_empty)
  then show ?thesis by (simp only: filter_empty_conv)
qed

lemma running_streaks_pos: "\<forall>v\<in>set (running_streaks prev run days). 1 \<le> v"
  by (induction days arbitrary: prev run) (auto simp: Let_def)

lemma foldl_max_foldr: "foldl max (a::nat) vs = max a (foldr max vs 0)"
  by (induction vs arbitrary: a) (auto simp: max.assoc)

lemma longest_eq_max_streak:
  "ds \<noteq> [] \<Longrightarrow> foldl max 0 (running_streaks d 1 ds) = max_streak (d # ds)"
proof -
  assume "ds \<noteq> []"
  then obtain x xs where ds: "ds = x # xs" by (cases ds) auto
  have "1 \<le> foldr max (running_streaks d 1 ds) 0"
    using running_streaks_pos[of d 1 ds] by (auto simp: ds Let_def max_def)
  then show ?thesis
    by (simp add: max_streak_def foldl_max_foldr max_def)
qed

lemma final_streak_Cons: "final_streak (d # ds) = last (1 # running_streaks d 1 ds)"
  by (simp add: final_streak_def)

lemma final_streak_pos: "days \<noteq> [] \<Longrightarrow> 1 \<le> final_streak days"
proof (cases days)
  case Nil
  assume "days \<noteq> []"
  with Nil show ?thesis by simp
next
  case (Cons d ds)
  show ?thesis
  proof (cases "running_streaks d 1 ds = []")
    case True
    then show ?thesis by (simp add: Cons final_streak_Cons)
  next
    case False
    then have "last (running_streaks d 1 ds) \<in> set (running_streaks d 1 ds)" by simp
    with running_streaks_pos[of d 1 ds] False show ?thesis
      by (auto simp add: Cons final_streak_Cons)
  qed
qed

lemma last_completion_day_le:
  assumes "\<forall>t\<in>set (tasks s). t_updated_at t \<le> today" and "completion_days s userId w \<noteq> []"
  shows "last (completion_days s userId w) \<le> toLocaleDateString today"
proof -
  have "last (completion_days s userId w) \<in> set (completion_days s userId w)"
    using assms(2) by simp
  then obtain t where "t \<in> set (tasks s)"
    "last (completion_days s userId w) = toLocaleDateString (t_updated_at t)"
    unfolding completion_days_def by auto
  with assms(1) show ?thesis
    using ms_per_day_pos by (auto simp: toLocaleDateString_def intro: zdiv_mono1)
qed

lemma completion_days_store_idle:
  "completion_days store_idle ''u1'' no_window = [0]"
  by (simp add: completion_days_def store_idle_def task1_def no_window_def gte_start_def
      lte_end_def toLocaleDateString_def ms_per_day_def)

lemma completion_days_store_resumed:
  "completion_days store_resumed ''u1'' no_window = [19723, 19724, 19727]"
  by (simp add: completion_days_def store_resumed_def task_on_def no_window_def gte_start_def
      lte_end_def toLocaleDateString_def ms_per_day_def)

text \<open>
  With completions on two days or more the longest streak is the greatest running
  value of the walk.
\<close>

lemma longest_streak_several_days:
  assumes "completion_days s userId w = d # d' # ds"
  shows "\<exists>m. getProductivityMetrics s userId w today = Inr m \<and>
           longest_streak m = max_streak (completion_days s userId w)"
  using getProductivityMetrics_days[OF assms, of today] longest_eq_max_streak[of "d' # ds" d] assms
  by auto

text \<open>The client turns the failure on no completed task into metrics that are all zero.\<close>

lemma client_metrics_no_completed:
  assumes "completion_days s userId w = []"
  shows "client_getProductivityMetrics (getProductivityMetrics s userId w today) =
           \<lparr>total_completed_tasks = 0, tasks_per_day = [], average_tasks_per_day = 0,
            current_streak = 0, longest_streak = 0\<rparr>"
  by (simp add: getProductivityMetrics_no_days[OF assms] client_getProductivityMetrics_def)

section \<open>Productivity metrics\<close>

text \<open>
  C4. The claim: with no completed task in the window the metrics are all zero and the
  map of days is empty, without a failure. The code: with no completed task of the user
  in the window there is no last date, reading its time throws, and the request is
  answered with status 500.
\<close>

theorem getProductivityMetrics_empty_fails:
  assumes "\<forall>t\<in>set (tasks s). \<not> (t_user_id t = userId \<and> t_status t = Completed \<and>
             gte_start w (t_updated_at t) \<and> lte_end w (t_updated_at t))"
  shows "getProductivityMetrics s userId w today = Inl Failure_500"
  using assms getProductivityMetrics_no_days completion_days_Nil_iff by blast

theorem getProductivityMetrics_empty_fails_witness:
  "getProductivityMetrics \<lparr>tasks = [], time_entries = []\<rparr> ''u1'' no_window 5000 = Inl Failure_500"
proof -
  have h: "\<forall>t\<in>set (tasks \<lparr>tasks = [], time_entries = []\<rparr>).
             \<not> (t_user_id t = ''u1'' \<and> t_status t = Completed \<and>
                gte_start no_window (t_updated_at t) \<and> lte_end no_window (t_updated_at t))"
    by simp
  show ?thesis by (rule getProductivityMetrics_empty_fails[OF h])
qed

text \<open>
  C5. The claim: the longest streak is the greatest running value of the walk, so that
  completions on a single day give 1. The code: the first pass of the loop continues
  before the maximum is taken, so with completions on a single day the longest streak
  is 0, where the greatest running value is 1.
\<close>

theorem longest_streak_single_day:
  assumes "completion_days s userId w = [day]"
  shows "\<exists>m. getProductivityMetrics s userId w today = Inr m \<and>
           longest_streak m = 0 \<and> max_streak (completion_days s userId w) = 1"
  using getProductivityMetrics_days[OF assms, of today] assms
  by (auto simp: max_streak_def)

theorem longest_streak_single_day_witness:
  "\<exists>m. getProductivityMetrics store_idle ''u1'' no_window 5000 = Inr m \<and>
       longest_streak m = 0 \<and> max_streak (completion_days store_idle ''u1'' no_window) = 1"
  by (rule longest_streak_single_day[OF completion_days_store_idle])

text \<open>
  C6. With at least one completed task in the window, the current streak is the final
  running value of the walk when the most recent completion day is at most one day
  before the day of the request, and 0 otherwise; it equals the final running value
  exactly in the first case. When no task was updated after the request's clock
  reading, "at most one day before" says: today or yesterday.
\<close>

theorem current_streak_iff_recent:
  assumes "completion_days s userId w \<noteq> []"
  shows "\<exists>m. getProductivityMetrics s userId w today = Inr m \<and>
           current_streak m =
             (if toLocaleDateString today - last (completion_days s userId w) \<le> 1
              then final_streak (completion_days s userId w) else 0) \<and>
           (current_streak m = final_streak (completion_days s userId w) \<longleftrightarrow>
              toLocaleDateString today - last (completion_days s userId w) \<le> 1) \<and>
           ((\<forall>t\<in>set (tasks s). t_updated_at t \<le> today) \<longrightarrow>
              (toLocaleDateString today - last (completion_days s userId w) \<le> 1 \<longleftrightarrow>
                 last (completion_days s userId w) = toLocaleDateString today \<or>
                 last (completion_days s userId w) = toLocaleDateString today - 1))"
proof -
  from assms obtain d ds where days: "completion_days s userId w = d # ds"
    by (cases "completion_days s userId w") auto
  from getProductivityMetrics_days[OF days, of today] obtain m where
    m: "getProductivityMetrics s userId w today = Inr m"
    and c: "current_streak m =
       (if toLocaleDateString today - last (d # ds) \<le> 1 then last (1 # running_streaks d 1 ds) else 0)"
    by blast
  have pos: "1 \<le> final_streak (completion_days s userId w)"
    using final_streak_pos[OF assms] .
  have c': "current_streak m =
             (if toLocaleDateString today - last (completion_days s userId w) \<le> 1
              then final_streak (completion_days s userId w) else 0)"
    using c by (simp add: days final_streak_Cons)
  have iff: "current_streak m = final_streak (completion_days s userId w) \<longleftrightarrow>
              toLocaleDateString today - last (completion_days s userId w) \<le> 1"
    using c' pos by auto
  have rec: "(\<forall>t\<in>set (tasks s). t_updated_at t \<le> today) \<longrightarrow>
              (toLocaleDateString today - last (completion_days s userId w) \<le> 1 \<longleftrightarrow>
                 last (completion_days s userId w) = toLocaleDateString today \<or>
                 last (completion_days s userId w) = toLocaleDateString today - 1)"
    using last_completion_day_le[OF _ assms, of today] by auto
  from m c' iff rec show ?thesis by blast
qed

theorem current_streak_iff_recent_witness:
  "\<exists>m. getProductivityMetrics store_resumed ''u1'' no_window (19727 * 86400000 + 7200000) = Inr m \<and>
       current_streak m = 1 \<and>
       final_streak (completion_days store_resumed ''u1'' no_window) = 1 \<and>
       toLocaleDateString (19727 * 86400000 + 7200000) -
         last (completion_days store_resumed ''u1'' no_window) = 0"
proof -
  have h: "completion_days store_resumed ''u1'' no_window \<noteq> []"
    by (simp add: completion_days_store_resumed)
  have f: "final_streak (completion_days store_resumed ''u1'' no_window) = 1"
    by (simp add: completion_days_store_resumed final_streak_def)
  have g: "toLocaleDateString (19727 * 86400000 + 7200000) -
         last (completion_days store_resumed ''u1'' no_window) = 0"
    by (simp add: completion_days_store_resumed toLocaleDateString_def ms_per_day_def)
  from current_streak_iff_recent[OF h, of "19727 * 86400000 + 7200000"] obtain m where
    "getProductivityMetrics store_resumed ''u1'' no_window (19727 * 86400000 + 7200000) = Inr m"
    "current_streak m =
       (if toLocaleDateString (19727 * 86400000 + 7200000) -
           last (completion_days store_resumed ''u1'' no_window) \<le> 1
        then final_streak (completion_days store_resumed ''u1'' no_window) else 0)"
    by blast
  with f g show ?thesis by simp
qed

text \<open>
  The walk on the example: completions on 1, 2 and 5 January, asked on 5 January, give
  a longest streak of 2 and a current streak of 1.
\<close>

lemma example_broken_then_resumed:
  "getProductivityMetrics store_resumed ''u1'' no_window (19727 * 86400000 + 7200000) =
   Inr \<lparr>total_completed_tasks = 4, tasks_per_day = [(19727, 1), (19723, 1), (19724, 2)],
        average_tasks_per_day = 4 / 3, current_streak = 1, longest_streak = 2\<rparr>"
  by (simp add: getProductivityMetrics_def store_resumed_def task_on_def no_window_def gte_start_def
      lte_end_def toLocaleDateString_def ms_per_day_def date_of_day_def Let_def)

section \<open>Task statistics\<close>

lemma completed_fraction_bounds:
  "n_completed \<le> n_total \<Longrightarrow>
   0 \<le> completed_fraction n_completed n_total \<and> completed_fraction n_completed n_total \<le> 1"
  by (simp add: completed_fraction_def divide_le_eq)

text \<open>
  C7. The claim: the completion rate and the rate of each priority are fractions in
  [0,1], completed / total, and 0 for no tasks. The code: each rate is 100 times that
  fraction, over the tasks of the user in the window, so it lies in [0,100] and is 0 for
  no tasks; the statistics page, which takes a fraction, multiplies by 100 once more and
  shows 10000 times the fraction.
\<close>

theorem task_statistics_rates_times_100:
  "(let st = getTaskStatistics s userId w;
        ts = tasks_in_window s userId w
    in completion_rate st =
         100 * completed_fraction (length (filter (\<lambda>t. t_status t = Completed) ts)) (length ts) \<and>
       high (completion_rate_by_priority st) =
         100 * completed_fraction
                 (length (filter (\<lambda>t. t_priority t = High \<and> t_status t = Completed) ts))
                 (length (filter (\<lambda>t. t_priority t = High) ts)) \<and>
       medium (completion_rate_by_priority st) =
         100 * completed_fraction
                 (length (filter (\<lambda>t. t_priority t = Medium \<and> t_status t = Completed) ts))
                 (length (filter (\<lambda>t. t_priority t = Medium) ts)) \<and>
       low (completion_rate_by_priority st) =
         100 * completed_fraction
                 (length (filter (\<lambda>t. t_priority t = Low \<and> t_status t = Completed) ts))
                 (length (filter (\<lambda>t. t_priority t = Low) ts)) \<and>
       shown_percent (completion_rate st) =
         10000 * completed_fraction (length (filter (\<lambda>t. t_status t = Completed) ts)) (length ts))"
  unfolding getTaskStatistics_def tasks_in_window_def Let_def
  by (simp add: priority_rate_def completed_fraction_def shown_percent_def del: filter_filter)

theorem task_statistics_rates_times_100_witness:
  "completion_rate (getTaskStatistics store_idle ''u1'' no_window) = 100 \<and>
   high (completion_rate_by_priority (getTaskStatistics store_idle ''u1'' no_window)) = 100 \<and>
   low (completion_rate_by_priority (getTaskStatistics store_idle ''u1'' no_window)) = 0 \<and>
   shown_percent (completion_rate (getTaskStatistics store_idle ''u1'' no_window)) = 10000 \<and>
   completed_fraction 1 1 = 1 \<and>
   \<not> completion_rate (getTaskStatistics store_idle ''u1'' no_window) \<le> 1"
proof -
  have ts: "tasks_in_window store_idle ''u1'' no_window = [task1]"
    by (simp add: tasks_in_window_def store_idle_def task1_def no_window_def gte_start_def lte_end_def)
  from task_statistics_rates_times_100[of store_idle "''u1''" no_window]
  show ?thesis
    by (simp add: Let_def ts task1_def completed_fraction_def shown_percent_def)
qed

section \<open>Facts about starting and stopping\<close>

lemma filter_unique:
  assumes "distinct (map f (filter Q xs))" and "x \<in> set xs" and "P x"
    and "\<And>y. P y \<Longrightarrow> Q y \<and> f y = k"
  shows "filter P xs = [x]"
  using assms(1,2)
proof (induction xs)
  case Nil
  then show ?case by simp
next
  case (Cons a xs)
  show ?case
  proof (cases "P a")
    case True
    then have qa: "Q a" "f a = k" using assms(4) by auto
    with Cons.prems(1) have "k \<notin> f ` {x \<in> set xs. Q x}" by simp
    then have nk: "\<forall>y\<in>set xs. Q y \<longrightarrow> f y \<noteq> k" by blast
    then have none: "\<forall>y\<in>set xs. \<not> P y" using assms(4) by blast
    then have "filter P xs = []" by (simp add: filter_empty_conv)
    moreover from none assms(3) Cons.prems(2) have "x = a" by auto
    ultimately show ?thesis using True by simp
  next
    case False
    with assms(3) Cons.prems(2) have "x \<in> set xs" by auto
    moreover from Cons.prems(1) have "distinct (map f (filter Q xs))" by (simp split: if_splits)
    ultimately have "filter P xs = [x]" by (rule Cons.IH[rotated])
    with False show ?thesis by simp
  qed
qed

lemma owned_task_unique:
  assumes "distinct (map t_id (tasks s))" and "t \<in> set (tasks s)" and "task_owned_by task_id userId t"
  shows "filter (task_owned_by task_id userId) (tasks s) = [t]"
proof (rule filter_unique[where f = t_id and Q = "\<lambda>t. True" and k = task_id])
  show "distinct (map t_id (filter (\<lambda>t. True) (tasks s)))" using assms(1) by simp
  show "t \<in> set (tasks s)" by fact
  show "task_owned_by task_id userId t" by fact
  show "\<And>y. task_owned_by task_id userId y \<Longrightarrow> True \<and> t_id y = task_id"
    by (simp add: task_owned_by_def)
qed

lemma single_task_iff:
  assumes "distinct (map t_id (tasks s))"
  shows "(\<exists>t. single (filter (task_owned_by task_id userId) (tasks s)) = Some t) \<longleftrightarrow>
         owns_task s task_id userId"
proof
  assume "\<exists>t. single (filter (task_owned_by task_id userId) (tasks s)) = Some t"
  then obtain t where "filter (task_owned_by task_id userId) (tasks s) = [t]"
    by (auto simp: single_Some_iff)
  then have "t \<in> set (filter (task_owned_by task_id userId) (tasks s))" by simp
  then show "owns_task s task_id userId" by (auto simp: owns_task_def)
next
  assume "owns_task s task_id userId"
  then obtain t where "t \<in> set (tasks s)" "task_owned_by task_id userId t"
    by (auto simp: owns_task_def)
  from owned_task_unique[OF assms this] show
    "\<exists>t. single (filter (task_owned_by task_id userId) (tasks s)) = Some t"
    by (simp add: single_Some_iff)
qed

lemma single_task_None_iff:
  assumes "distinct (map t_id (tasks s))"
  shows "single (filter (task_owned_by task_id userId) (tasks s)) = None \<longleftrightarrow>
         \<not> owns_task s task_id userId"
  using single_task_iff[OF assms, of task_id userId] by auto

lemma active_entry_unique:
  assumes "one_open_entry_per_task s" and "e \<in> set (time_entries s)"
    and "active_entry_of task_id userId e"
  shows "filter (active_entry_of task_id userId) (time_entries s) = [e]"
proof (rule filter_unique[where f = e_task_id and Q = "\<lambda>e. e_end_time e = None" and k = task_id])
  show "distinct (map e_task_id (filter (\<lambda>e. e_end_time e = None) (time_entries s)))"
    using assms(1) by (simp add: one_open_entry_per_task_def)
  show "e \<in> set (time_entries s)" by fact
  show "active_entry_of task_id userId e" by fact
  show "\<And>y. active_entry_of task_id userId y \<Longrightarrow> e_end_time y = None \<and> e_task_id y = task_id"
    by (simp add: active_entry_of_def entry_of_def)
qed

lemma entry_id_unique:
  assumes "distinct (map e_id rows)" and "e \<in> set rows"
  shows "filter (\<lambda>x. e_id x = e_id e) rows = [e]"
proof (rule filter_unique[where f = e_id and Q = "\<lambda>e. True" and k = "e_id e"])
  show "distinct (map e_id (filter (\<lambda>e. True) rows))" using assms(1) by simp
  show "e \<in> set rows" by fact
  show "e_id e = e_id e" by simp
  show "\<And>y. e_id y = e_id e \<Longrightarrow> True \<and> e_id y = e_id e" by simp
qed

text \<open>Under the keys, an open entry of a task the user owns is an open entry of that user.\<close>

lemma open_entry_of_owner:
  assumes "keys_ok s" and "owns_task s task_id userId"
    and "e \<in> set (time_entries s)" and "e_task_id e = task_id"
  shows "e_user_id e = userId"
proof -
  from assms(1,3) have "owns_task s (e_task_id e) (e_user_id e)" by (simp add: keys_ok_def)
  then obtain t' where t': "t' \<in> set (tasks s)" "t_id t' = task_id" "t_user_id t' = e_user_id e"
    using assms(4) by (auto simp: owns_task_def task_owned_by_def)
  from assms(2) obtain t where t: "t \<in> set (tasks s)" "t_id t = task_id" "t_user_id t = userId"
    by (auto simp: owns_task_def task_owned_by_def)
  from assms(1) have "distinct (map t_id (tasks s))" by (simp add: keys_ok_def)
  with t t' have "t = t'" by (metis distinct_map inj_on_def)
  with t t' show ?thesis by simp
qed

lemma has_open_entry_active:
  assumes "keys_ok s" and "owns_task s task_id userId"
  shows "has_open_entry s task_id \<longleftrightarrow> (\<exists>e\<in>set (time_entries s). active_entry_of task_id userId e)"
  using open_entry_of_owner[OF assms]
  by (auto simp: has_open_entry_def active_entry_of_def entry_of_def)

lemma single_active_iff:
  assumes "one_open_entry_per_task s"
  shows "(\<exists>e. single (filter (active_entry_of task_id userId) (time_entries s)) = Some e) \<longleftrightarrow>
         (\<exists>e\<in>set (time_entries s). active_entry_of task_id userId e)"
proof
  assume "\<exists>e. single (filter (active_entry_of task_id userId) (time_entries s)) = Some e"
  then obtain e where "filter (active_entry_of task_id userId) (time_entries s) = [e]"
    by (auto simp: single_Some_iff)
  then have "e \<in> set (filter (active_entry_of task_id userId) (time_entries s))" by simp
  then show "\<exists>e\<in>set (time_entries s). active_entry_of task_id userId e" by auto
next
  assume "\<exists>e\<in>set (time_entries s). active_entry_of task_id userId e"
  then obtain e where "e \<in> set (time_entries s)" "active_entry_of task_id userId e" by blast
  from active_entry_unique[OF assms this]
  show "\<exists>e. single (filter (active_entry_of task_id userId) (time_entries s)) = Some e"
    by (simp add: single_Some_iff)
qed

lemma start_NotFound_iff:
  assumes "distinct (map t_id (tasks s))"
  shows "fst (startTimeTracking s new_id now task_id userId) = Inl NotFound_404 \<longleftrightarrow>
         \<not> owns_task s task_id userId"
  using single_task_None_iff[OF assms, of task_id userId]
  by (auto simp: startTimeTracking_def split: option.splits prod.splits)

lemma start_Conflict_iff:
  assumes "keys_ok s" and "one_open_entry_per_task s"
  shows "fst (startTimeTracking s new_id now task_id userId) = Inl Conflict_400 \<longleftrightarrow>
         owns_task s task_id userId \<and> has_open_entry s task_id"
proof -
  from assms(1) have d: "distinct (map t_id (tasks s))" by (simp add: keys_ok_def)
  show ?thesis
  proof (cases "owns_task s task_id userId")
    case False
    with start_NotFound_iff[OF d, of new_id now task_id userId] show ?thesis by simp
  next
    case True
    then obtain t where t: "single (filter (task_owned_by task_id userId) (tasks s)) = Some t"
      using single_task_iff[OF d] by blast
    have "fst (startTimeTracking s new_id now task_id userId) = Inl Conflict_400 \<longleftrightarrow>
          (\<exists>e. single (filter (active_entry_of task_id userId) (time_entries s)) = Some e)"
      by (auto simp: startTimeTracking_def t split: option.splits prod.splits)
    with True single_active_iff[OF assms(2)] has_open_entry_active[OF assms(1) True]
    show ?thesis by simp
  qed
qed

lemma start_creates:
  assumes "distinct (map t_id (tasks s))" and "owns_task s task_id userId"
    and "\<not> (\<exists>e\<in>set (time_entries s). active_entry_of task_id userId e)"
    and "new_id \<notin> set (map e_id (time_entries s))"
  shows "startTimeTracking s new_id now task_id userId =
     (Inr \<lparr>e_id = new_id, e_task_id = task_id, e_user_id = userId,
           e_start_time = now, e_end_time = None\<rparr>,
      s\<lparr>time_entries := time_entries s @
          [\<lparr>e_id = new_id, e_task_id = task_id, e_user_id = userId,
            e_start_time = now, e_end_time = None\<rparr>]\<rparr>)"
proof -
  from assms(2) obtain t where t: "single (filter (task_owned_by task_id userId) (tasks s)) = Some t"
    using single_task_iff[OF assms(1)] by blast
  from assms(3) have "filter (active_entry_of task_id userId) (time_entries s) = []"
    by (simp add: filter_empty_conv)
  then have a: "single (filter (active_entry_of task_id userId) (time_entries s)) = None"
    by (simp add: single_def)
  show ?thesis using assms(4)
    by (simp add: startTimeTracking_def t a insert_time_entry_def Let_def)
qed

lemma stop_NotFound_iff:
  assumes "one_open_entry_per_task s"
  shows "fst (stopTimeTracking s now task_id userId) = Inl NotFound_404 \<longleftrightarrow>
         \<not> (\<exists>e\<in>set (time_entries s). active_entry_of task_id userId e)"
proof -
  have "fst (stopTimeTracking s now task_id userId) = Inl NotFound_404 \<longleftrightarrow>
        single (filter (active_entry_of task_id userId) (time_entries s)) = None"
    by (auto simp: stopTimeTracking_def Let_def split: option.splits)
  with single_active_iff[OF assms, of task_id userId] show ?thesis by auto
qed

lemma update_end_time_single:
  assumes "distinct (map e_id rows)" and "e \<in> set rows"
  shows "filter (\<lambda>x. e_id x = e_id e) (update_end_time (e_id e) now rows) = [e\<lparr>e_end_time := Some now\<rparr>]"
proof -
  have "filter (\<lambda>x. e_id x = e_id e) (update_end_time (e_id e) now rows) =
        update_end_time (e_id e) now [e]"
    by (simp only: filter_id_update_end_time entry_id_unique[OF assms])
  then show ?thesis by (simp add: update_end_time_def)
qed

lemma stop_closes:
  assumes "one_open_entry_per_task s" and "distinct (map e_id (time_entries s))"
    and "e \<in> set (time_entries s)" and "active_entry_of task_id userId e"
  shows "stopTimeTracking s now task_id userId =
     (Inr (e\<lparr>e_end_time := Some now\<rparr>),
      s\<lparr>time_entries := update_end_time (e_id e) now (time_entries s)\<rparr>)"
  by (simp add: stopTimeTracking_def active_entry_unique[OF assms(1,3,4)] single_def
      update_end_time_single[OF assms(2,3)] Let_def)

lemma keys_ok_store_idle: "keys_ok store_idle"
  by (simp add: keys_ok_def store_idle_def)

lemma keys_ok_store_running: "keys_ok store_running"
  by (simp add: keys_ok_def store_running_def owns_task_def task_owned_by_def task1_def entry1_def)

lemma one_open_store_idle: "one_open_entry_per_task store_idle"
  by (simp add: one_open_entry_per_task_def store_idle_def)

lemma one_open_store_running: "one_open_entry_per_task store_running"
  by (simp add: one_open_entry_per_task_def store_running_def)

section \<open>Outcomes of start and stop\<close>

text \<open>
  C2. The claim: start fails with Conflict exactly when an entry for the task has a null
  end time. The code looks for the task of the user first: a user who does not own the
  task is answered 404, also while the owner's timer on it runs.
\<close>

theorem start_conflict_not_owner:
  "\<not> (fst (startTimeTracking store_running ''e2'' 2000 ''t1'' ''u2'') = Inl Conflict_400 \<longleftrightarrow>
      has_open_entry store_running ''t1'')"
  by (simp add: startTimeTracking_def store_running_def task1_def entry1_def single_def
      task_owned_by_def has_open_entry_def)

text \<open>
  C2, as amended. On a store whose keys hold and that has at most one open entry per
  task, with a fresh id for the insert: start fails with NotFound (404) exactly when
  the user owns no task with the id; it fails with Conflict (400) exactly when the user
  owns the task and an entry for the task has a null end time; otherwise it adds, and
  returns, an entry with the clock reading as start time and a null end time. Stop
  fails with NotFound (404) exactly when the task and user have no open entry;
  otherwise it sets the end time of that entry to the clock reading and returns it.
\<close>

theorem start_stop_outcomes:
  assumes "keys_ok s" and "one_open_entry_per_task s"
    and "new_id \<notin> set (map e_id (time_entries s))"
  shows "(fst (startTimeTracking s new_id now task_id userId) = Inl NotFound_404 \<longleftrightarrow>
            \<not> owns_task s task_id userId) \<and>
         (fst (startTimeTracking s new_id now task_id userId) = Inl Conflict_400 \<longleftrightarrow>
            owns_task s task_id userId \<and> has_open_entry s task_id) \<and>
         (owns_task s task_id userId \<and> \<not> has_open_entry s task_id \<longrightarrow>
            startTimeTracking s new_id now task_id userId =
              (Inr \<lparr>e_id = new_id, e_task_id = task_id, e_user_id = userId,
                    e_start_time = now, e_end_time = None\<rparr>,
               s\<lparr>time_entries := time_entries s @
                   [\<lparr>e_id = new_id, e_task_id = task_id, e_user_id = userId,
                     e_start_time = now, e_end_time = None\<rparr>]\<rparr>)) \<and>
         (fst (stopTimeTracking s now task_id userId) = Inl NotFound_404 \<longleftrightarrow>
            \<not> (\<exists>e\<in>set (time_entries s). active_entry_of task_id userId e)) \<and>
         (\<forall>e\<in>set (time_entries s). active_entry_of task_id userId e \<longrightarrow>
            stopTimeTracking s now task_id userId =
              (Inr (e\<lparr>e_end_time := Some now\<rparr>),
               s\<lparr>time_entries := update_end_time (e_id e) now (time_entries s)\<rparr>))"
proof -
  from assms(1) have d: "distinct (map t_id (tasks s))" and di: "distinct (map e_id (time_entries s))"
    by (simp_all add: keys_ok_def)
  have 1: "fst (startTimeTracking s new_id now task_id userId) = Inl NotFound_404 \<longleftrightarrow>
            \<not> owns_task s task_id userId"
    by (rule start_NotFound_iff[OF d])
  have 2: "fst (startTimeTracking s new_id now task_id userId) = Inl Conflict_400 \<longleftrightarrow>
            owns_task s task_id userId \<and> has_open_entry s task_id"
    by (rule start_Conflict_iff[OF assms(1,2)])
  have 3: "owns_task s task_id userId \<and> \<not> has_open_entry s task_id \<longrightarrow>
            startTimeTracking s new_id now task_id userId =
              (Inr \<lparr>e_id = new_id, e_task_id = task_id, e_user_id = userId,
                    e_start_time = now, e_end_time = None\<rparr>,
               s\<lparr>time_entries := time_entries s @
                   [\<lparr>e_id = new_id, e_task_id = task_id, e_user_id = userId,
                     e_start_time = now, e_end_time = None\<rparr>]\<rparr>)"
  proof
    assume a: "owns_task s task_id userId \<and> \<not> has_open_entry s task_id"
    then have "\<not> (\<exists>e\<in>set (time_entries s). active_entry_of task_id userId e)"
      using has_open_entry_active[OF assms(1), of task_id userId] by simp
    from start_creates[OF d _ this assms(3)] a show
      "startTimeTracking s new_id now task_id userId =
              (Inr \<lparr>e_id = new_id, e_task_id = task_id, e_user_id = userId,
                    e_start_time = now, e_end_time = None\<rparr>,
               s\<lparr>time_entries := time_entries s @
                   [\<lparr>e_id = new_id, e_task_id = task_id, e_user_id = userId,
                     e_start_time = now, e_end_time = None\<rparr>]\<rparr>)" by simp
  qed
  have 4: "fst (stopTimeTracking s now task_id userId) = Inl NotFound_404 \<longleftrightarrow>
            \<not> (\<exists>e\<in>set (time_entries s). active_entry_of task_id userId e)"
    by (rule stop_NotFound_iff[OF assms(2)])
  have 5: "\<forall>e\<in>set (time_entries s). active_entry_of task_id userId e \<longrightarrow>
            stopTimeTracking s now task_id userId =
              (Inr (e\<lparr>e_end_time := Some now\<rparr>),
               s\<lparr>time_entries := update_end_time (e_id e) now (time_entries s)\<rparr>)"
    using stop_closes[OF assms(2) di] by blast
  from 1 2 3 4 5 show ?thesis by blast
qed

theorem start_stop_outcomes_witness:
  "startTimeTracking store_idle ''e1'' 1000 ''t1'' ''u1'' = (Inr entry1, store_running) \<and>
   fst (startTimeTracking store_idle ''e1'' 1000 ''t1'' ''u2'') = Inl NotFound_404 \<and>
   fst (startTimeTracking store_running ''e2'' 2000 ''t1'' ''u1'') = Inl Conflict_400 \<and>
   fst (stopTimeTracking store_idle 2000 ''t1'' ''u1'') = Inl NotFound_404 \<and>
   stopTimeTracking store_running 2000 ''t1'' ''u1'' =
     (Inr (entry1\<lparr>e_end_time := Some 2000\<rparr>),
      store_running\<lparr>time_entries := [entry1\<lparr>e_end_time := Some 2000\<rparr>]\<rparr>)"
proof -
  have f1: "''e1'' \<notin> set (map e_id (time_entries store_idle))"
    by (simp add: store_idle_def)
  have f2: "''e2'' \<notin> set (map e_id (time_entries store_running))"
    by (simp add: store_running_def entry1_def)
  have o1: "owns_task store_idle ''t1'' ''u1''" "\<not> has_open_entry store_idle ''t1''"
    "\<not> owns_task store_idle ''t1'' ''u2''"
    "\<not> (\<exists>e\<in>set (time_entries store_idle). active_entry_of ''t1'' ''u1'' e)"
    by (simp_all add: owns_task_def has_open_entry_def store_idle_def task1_def task_owned_by_def)
  have o2: "owns_task store_running ''t1'' ''u1''" "has_open_entry store_running ''t1''"
    "entry1 \<in> set (time_entries store_running)" "active_entry_of ''t1'' ''u1'' entry1"
    by (simp_all add: owns_task_def has_open_entry_def store_running_def task1_def task_owned_by_def
        entry1_def active_entry_of_def entry_of_def)
  note a = start_stop_outcomes[OF keys_ok_store_idle one_open_store_idle f1, of 1000 "''t1''" "''u1''"]
  note b = start_stop_outcomes[OF keys_ok_store_idle one_open_store_idle f1, of 1000 "''t1''" "''u2''"]
  note c = start_stop_outcomes[OF keys_ok_store_running one_open_store_running f2, of 2000 "''t1''" "''u1''"]
  note d = start_stop_outcomes[OF keys_ok_store_idle one_open_store_idle f1, of 2000 "''t1''" "''u1''"]
  have 1: "startTimeTracking store_idle ''e1'' 1000 ''t1'' ''u1'' = (Inr entry1, store_running)"
    using a o1 by (simp add: entry1_def store_idle_def store_running_def)
  have 2: "fst (startTimeTracking store_idle ''e1'' 1000 ''t1'' ''u2'') = Inl NotFound_404"
    using b o1 by blast
  have 3: "fst (startTimeTracking store_running ''e2'' 2000 ''t1'' ''u1'') = Inl Conflict_400"
    using c o2 by blast
  have 4: "fst (stopTimeTracking store_idle 2000 ''t1'' ''u1'') = Inl NotFound_404"
    using d o1 by blast
  have "stopTimeTracking store_running 2000 ''t1'' ''u1'' =
     (Inr (entry1\<lparr>e_end_time := Some 2000\<rparr>),
      store_running\<lparr>time_entries := update_end_time (e_id entry1) 2000 (time_entries store_running)\<rparr>)"
    using c o2 by blast
  then have 5: "stopTimeTracking store_running 2000 ''t1'' ''u1'' =
     (Inr (entry1\<lparr>e_end_time := Some 2000\<rparr>),
      store_running\<lparr>time_entries := [entry1\<lparr>e_end_time := Some 2000\<rparr>]\<rparr>)"
    by (simp add: update_end_time_def store_running_def)
  from 1 2 3 4 5 show ?thesis by blast
qed

text \<open>
  C3. For a task of the user with no open entry, start and then stop leave the store
  with exactly one more entry, which is closed and which stop returns: it starts at the
  clock reading of start and ends at the clock reading of stop, and its duration, as
  the reports and the page compute it, is the end time minus the start time.
\<close>

theorem start_then_stop_round_trip:
  assumes "distinct (map t_id (tasks s))" and "owns_task s task_id userId"
    and "\<not> has_open_entry s task_id" and "new_id \<notin> set (map e_id (time_entries s))"
  shows "(let entry = \<lparr>e_id = new_id, e_task_id = task_id, e_user_id = userId,
                        e_start_time = started, e_end_time = None\<rparr>;
              closed = entry\<lparr>e_end_time := Some stopped\<rparr>
          in startTimeTracking s new_id started task_id userId =
               (Inr entry, s\<lparr>time_entries := time_entries s @ [entry]\<rparr>) \<and>
             stopTimeTracking (s\<lparr>time_entries := time_entries s @ [entry]\<rparr>) stopped task_id userId =
               (Inr closed, s\<lparr>time_entries := time_entries s @ [closed]\<rparr>) \<and>
             entry_duration closed = stopped - started \<and>
             duration_ms (with_duration_ms now closed) = Some (stopped - started))"
proof -
  define entry where "entry = \<lparr>e_id = new_id, e_task_id = task_id, e_user_id = userId,
                        e_start_time = started, e_end_time = None\<rparr>"
  define s1 where "s1 = s\<lparr>time_entries := time_entries s @ [entry]\<rparr>"
  from assms(3) have na: "\<not> (\<exists>e\<in>set (time_entries s). active_entry_of task_id userId e)"
    by (auto simp: has_open_entry_def active_entry_of_def entry_of_def)
  have st: "startTimeTracking s new_id started task_id userId = (Inr entry, s1)"
    using start_creates[OF assms(1,2) na assms(4), of started] by (simp add: entry_def s1_def)
  from na have "filter (active_entry_of task_id userId) (time_entries s) = []"
    by (simp add: filter_empty_conv)
  then have act: "filter (active_entry_of task_id userId) (time_entries s1) = [entry]"
    by (simp add: s1_def entry_def active_entry_of_def entry_of_def)
  from assms(4) have old: "\<forall>y\<in>set (time_entries s). e_id y \<noteq> e_id entry"
    by (auto simp: entry_def)
  define closed where "closed = entry\<lparr>e_end_time := Some stopped\<rparr>"
  have a1: "single (filter (active_entry_of task_id userId) (time_entries s1)) = Some entry"
    by (simp add: act single_def)
  have a2: "update_end_time (e_id entry) stopped (time_entries s1) = time_entries s @ [closed]"
    using update_end_time_other[OF old, of stopped]
    by (simp add: s1_def update_end_time_def closed_def)
  have "filter (\<lambda>e. e_id e = e_id entry) (time_entries s) = []"
    using old by (simp add: filter_empty_conv)
  then have a3: "single (filter (\<lambda>e. e_id e = e_id entry) (time_entries s @ [closed])) = Some closed"
    by (simp add: single_def closed_def)
  have a4: "s1\<lparr>time_entries := time_entries s @ [closed]\<rparr> =
            s\<lparr>time_entries := time_entries s @ [closed]\<rparr>"
    by (simp add: s1_def)
  have sp: "stopTimeTracking s1 stopped task_id userId =
       (Inr closed, s\<lparr>time_entries := time_entries s @ [closed]\<rparr>)"
    by (simp only: stopTimeTracking_def a1 option.case Let_def a2 a3 a4)
  have du: "entry_duration closed = stopped - started"
    "duration_ms (with_duration_ms now closed) = Some (stopped - started)"
    by (simp_all add: entry_duration_def getTime_def with_duration_ms_def entry_def closed_def
        time_entry.defs shown_time_entry.defs)
  from st sp du show ?thesis
    unfolding Let_def entry_def[symmetric] closed_def[symmetric] s1_def[symmetric]
    by simp
qed

theorem start_then_stop_round_trip_witness:
  "startTimeTracking store_idle ''e1'' 1000 ''t1'' ''u1'' = (Inr entry1, store_running) \<and>
   stopTimeTracking store_running 4000 ''t1'' ''u1'' =
     (Inr (entry1\<lparr>e_end_time := Some 4000\<rparr>),
      store_idle\<lparr>time_entries := [entry1\<lparr>e_end_time := Some 4000\<rparr>]\<rparr>) \<and>
   entry_duration (entry1\<lparr>e_end_time := Some 4000\<rparr>) = 3000 \<and>
   duration_ms (with_duration_ms 9000 (entry1\<lparr>e_end_time := Some 4000\<rparr>)) = Some 3000"
proof -
  have h: "distinct (map t_id (tasks store_idle))" "owns_task store_idle ''t1'' ''u1''"
    "\<not> has_open_entry store_idle ''t1''" "''e1'' \<notin> set (map e_id (time_entries store_idle))"
    by (simp_all add: store_idle_def owns_task_def task_owned_by_def task1_def has_open_entry_def)
  from start_then_stop_round_trip[OF h, of 1000 4000 9000]
  show ?thesis
    by (simp add: Let_def entry1_def store_idle_def store_running_def)
qed

section \<open>Listing the entries of a task\<close>

lemma sorted_desc_rev_sort_key:
  "sorted_wrt (\<lambda>a b. f b \<le> f a) (rev (sort_key f xs))"
proof -
  have "sorted (map f (sort_key f xs))" by simp
  then have "sorted_wrt (\<lambda>a b. f a \<le> f b) (sort_key f xs)" by (simp only: sorted_map)
  then show ?thesis by (simp add: sorted_wrt_rev)
qed

lemma with_duration_ms_fields:
  "e_start_time (with_duration_ms now e) = e_start_time e"
  "e_end_time (with_duration_ms now e) = e_end_time e"
  "time_entry.truncate (with_duration_ms now e) = e"
  "duration_ms (with_duration_ms now e) =
     Some ((case e_end_time e of None \<Rightarrow> now | Some t \<Rightarrow> t) - e_start_time e)"
  by (cases e; simp add: with_duration_ms_def time_entry.defs shown_time_entry.defs split: option.splits)+

text \<open>
  C9. For a task of the user, the listing returns the entries of the task and user,
  each once, by descending start time, and the page shows them in that order, each with
  a duration: an open entry (null end time) with the time elapsed so far, the clock
  reading minus the start time, and a closed entry with end time minus start time.
\<close>

theorem listing_newest_first:
  assumes "distinct (map t_id (tasks s))" and "owns_task s task_id userId"
  shows "\<exists>rows shown.
           getTimeEntries s task_id userId = Inr rows \<and>
           mset rows = mset (filter (entry_of task_id userId) (time_entries s)) \<and>
           sorted_wrt (\<lambda>a b. e_start_time b \<le> e_start_time a) rows \<and>
           fetchTimeEntries now (getTimeEntries s task_id userId) = Inr shown \<and>
           map time_entry.truncate shown = rows \<and>
           sorted_wrt (\<lambda>a b. e_start_time b \<le> e_start_time a) shown \<and>
           (\<forall>e\<in>set shown. e_end_time e = None \<longrightarrow> duration_ms e = Some (now - e_start_time e)) \<and>
           (\<forall>e\<in>set shown. \<forall>t. e_end_time e = Some t \<longrightarrow> duration_ms e = Some (t - e_start_time e))"
proof -
  let ?rows = "order_start_time_desc (filter (entry_of task_id userId) (time_entries s))"
  let ?shown = "map (with_duration_ms now) ?rows"
  from assms obtain t where "single (filter (task_owned_by task_id userId) (tasks s)) = Some t"
    using single_task_iff by blast
  then have g: "getTimeEntries s task_id userId = Inr ?rows"
    by (simp add: getTimeEntries_def)
  have m: "mset ?rows = mset (filter (entry_of task_id userId) (time_entries s))"
    by (simp add: order_start_time_desc_def)
  have o: "sorted_wrt (\<lambda>a b. e_start_time b \<le> e_start_time a) ?rows"
    unfolding order_start_time_desc_def by (rule sorted_desc_rev_sort_key)
  have f: "fetchTimeEntries now (getTimeEntries s task_id userId) = Inr ?shown"
    by (simp add: g fetchTimeEntries_def)
  have tr: "map time_entry.truncate ?shown = ?rows"
    by (simp add: with_duration_ms_fields o_def)
  have o': "sorted_wrt (\<lambda>a b. e_start_time b \<le> e_start_time a) ?shown"
    using o by (simp add: sorted_wrt_map with_duration_ms_fields)
  have d1: "\<forall>e\<in>set ?shown. e_end_time e = None \<longrightarrow> duration_ms e = Some (now - e_start_time e)"
    by (auto simp: with_duration_ms_fields)
  have d2: "\<forall>e\<in>set ?shown. \<forall>t. e_end_time e = Some t \<longrightarrow> duration_ms e = Some (t - e_start_time e)"
    by (auto simp: with_duration_ms_fields)
  from g m o f tr o' d1 d2 show ?thesis by blast
qed

theorem listing_newest_first_witness:
  "(\<exists>rows shown.
           getTimeEntries store_two_closed ''t1'' ''u1'' = Inr rows \<and>
           mset rows = mset (filter (entry_of ''t1'' ''u1'') (time_entries store_two_closed)) \<and>
           sorted_wrt (\<lambda>a b. e_start_time b \<le> e_start_time a) rows \<and>
           fetchTimeEntries 172805000 (getTimeEntries store_two_closed ''t1'' ''u1'') = Inr shown \<and>
           map time_entry.truncate shown = rows \<and>
           sorted_wrt (\<lambda>a b. e_start_time b \<le> e_start_time a) shown \<and>
           (\<forall>e\<in>set shown. e_end_time e = None \<longrightarrow> duration_ms e = Some (172805000 - e_start_time e)) \<and>
           (\<forall>e\<in>set shown. \<forall>t. e_end_time e = Some t \<longrightarrow> duration_ms e = Some (t - e_start_time e))) \<and>
   fetchTimeEntries 172805000 (getTimeEntries store_two_closed ''t1'' ''u1'') =
     Inr [\<lparr>e_id = ''e3'', e_task_id = ''t1'', e_user_id = ''u1'',
           e_start_time = 172800000, e_end_time = None, duration_ms = Some 5000\<rparr>,
          \<lparr>e_id = ''e2'', e_task_id = ''t1'', e_user_id = ''u1'',
           e_start_time = 86400000, e_end_time = Some 91800000, duration_ms = Some 5400000\<rparr>,
          \<lparr>e_id = ''e1'', e_task_id = ''t1'', e_user_id = ''u1'',
           e_start_time = 0, e_end_time = Some 1800000, duration_ms = Some 1800000\<rparr>]"
proof -
  have h: "distinct (map t_id (tasks store_two_closed))" "owns_task store_two_closed ''t1'' ''u1''"
    by (simp_all add: store_two_closed_def owns_task_def task_owned_by_def task1_def)
  have e: "fetchTimeEntries 172805000 (getTimeEntries store_two_closed ''t1'' ''u1'') =
     Inr [\<lparr>e_id = ''e3'', e_task_id = ''t1'', e_user_id = ''u1'',
           e_start_time = 172800000, e_end_time = None, duration_ms = Some 5000\<rparr>,
          \<lparr>e_id = ''e2'', e_task_id = ''t1'', e_user_id = ''u1'',
           e_start_time = 86400000, e_end_time = Some 91800000, duration_ms = Some 5400000\<rparr>,
          \<lparr>e_id = ''e1'', e_task_id = ''t1'', e_user_id = ''u1'',
           e_start_time = 0, e_end_time = Some 1800000, duration_ms = Some 1800000\<rparr>]"
    by (simp add: fetchTimeEntries_def getTimeEntries_def store_two_closed_def task1_def single_def
        task_owned_by_def entry_of_def order_start_time_desc_def with_duration_ms_def
        time_entry.defs shown_time_entry.defs)
  show ?thesis by (rule conjI[OF listing_newest_first[OF h] e])
qed

section \<open>One open entry per task\<close>

text \<open>
  The three store calls of a start request, made with no other call in between, are
  \<^verbatim>\<open>startTimeTracking\<close> run to its response.
\<close>

lemma start_steps_in_a_row:
  "interleave [First, First, First] r1 r2 (AwaitTask, p2, s) =
     (Responded (fst (startTimeTracking s (r_new_id r1) (r_now r1) (r_task_id r1) (r_user_id r1))),
      p2,
      snd (startTimeTracking s (r_new_id r1) (r_now r1) (r_task_id r1) (r_user_id r1)))"
  by (simp add: startTimeTracking_def split: option.splits prod.splits)

lemma interleaved_starts:
  "interleave [First, Second, First, Second, First, Second] request1 request2
     (AwaitTask, AwaitTask, store_idle) =
   (Responded (Inr entry1),
    Responded (Inr \<lparr>e_id = ''e2'', e_task_id = ''t1'', e_user_id = ''u1'',
                    e_start_time = 1001, e_end_time = None\<rparr>),
    \<lparr>tasks = [task1],
     time_entries = [entry1, \<lparr>e_id = ''e2'', e_task_id = ''t1'', e_user_id = ''u1'',
                    e_start_time = 1001, e_end_time = None\<rparr>]\<rparr>)"
  by (simp add: request1_def request2_def store_idle_def task1_def entry1_def single_def
      task_owned_by_def active_entry_of_def entry_of_def insert_time_entry_def Let_def)

text \<open>
  C1. The claim: no task ever has two entries with a null end time, also when two start
  calls for it run together, since the check for an open entry and the insert are one
  conditional write. The code reads the open entry in one store call and inserts in
  another: when each of two requests reads before the other inserts, both insert, and
  the task has two open entries.
\<close>

theorem concurrent_starts_two_open_entries:
  "\<not> one_open_entry_per_task
       (snd (snd (interleave [First, Second, First, Second, First, Second] request1 request2
          (AwaitTask, AwaitTask, store_idle))))"
  unfolding interleaved_starts
  by (simp add: one_open_entry_per_task_def entry1_def)

lemma owns_task_time_entries_update [simp]:
  "owns_task (s\<lparr>time_entries := es\<rparr>) task_id userId = owns_task s task_id userId"
  by (simp add: owns_task_def)

lemma start_cases:
  "startTimeTracking s new_id now task_id userId = (r, s') \<Longrightarrow>
   s' = s \<or>
   (owns_task s task_id userId \<and>
    single (filter (active_entry_of task_id userId) (time_entries s)) = None \<and>
    new_id \<notin> set (map e_id (time_entries s)) \<and>
    s' = s\<lparr>time_entries := time_entries s @
          [\<lparr>e_id = new_id, e_task_id = task_id, e_user_id = userId,
            e_start_time = now, e_end_time = None\<rparr>]\<rparr>)"
proof -
  assume a: "startTimeTracking s new_id now task_id userId = (r, s')"
  show ?thesis
  proof (cases "single (filter (task_owned_by task_id userId) (tasks s))")
    case None
    with a show ?thesis by (simp add: startTimeTracking_def)
  next
    case (Some t)
    then have "filter (task_owned_by task_id userId) (tasks s) = [t]" by (simp add: single_Some_iff)
    then have "t \<in> set (filter (task_owned_by task_id userId) (tasks s))" by simp
    then have o: "owns_task s task_id userId" by (auto simp: owns_task_def)
    with a Some show ?thesis
      by (auto simp: startTimeTracking_def insert_time_entry_def Let_def split: option.splits if_splits)
  qed
qed

lemma start_keeps_keys:
  assumes "keys_ok s"
  shows "keys_ok (snd (startTimeTracking s new_id now task_id userId))"
proof -
  obtain r s' where rs: "startTimeTracking s new_id now task_id userId = (r, s')"
    by (cases "startTimeTracking s new_id now task_id userId")
  from start_cases[OF rs] assms have "keys_ok s'"
    by (auto simp: keys_ok_def)
  with rs show ?thesis by simp
qed

lemma start_keeps_one_open:
  assumes "keys_ok s" and "one_open_entry_per_task s"
  shows "one_open_entry_per_task (snd (startTimeTracking s new_id now task_id userId))"
proof -
  obtain r s' where rs: "startTimeTracking s new_id now task_id userId = (r, s')"
    by (cases "startTimeTracking s new_id now task_id userId")
  from start_cases[OF rs] have "one_open_entry_per_task s'"
  proof
    assume "s' = s"
    with assms(2) show ?thesis by simp
  next
    assume c: "owns_task s task_id userId \<and>
      single (filter (active_entry_of task_id userId) (time_entries s)) = None \<and>
      new_id \<notin> set (map e_id (time_entries s)) \<and>
      s' = s\<lparr>time_entries := time_entries s @
          [\<lparr>e_id = new_id, e_task_id = task_id, e_user_id = userId,
            e_start_time = now, e_end_time = None\<rparr>]\<rparr>"
    then have "\<not> (\<exists>e\<in>set (time_entries s). active_entry_of task_id userId e)"
      using single_active_iff[OF assms(2), of task_id userId] by auto
    with c have "\<not> has_open_entry s task_id"
      using has_open_entry_active[OF assms(1), of task_id userId] by simp
    then have "task_id \<notin> set (map e_task_id (filter (\<lambda>e. e_end_time e = None) (time_entries s)))"
      by (auto simp: has_open_entry_def)
    with assms(2) c show ?thesis
      by (simp add: one_open_entry_per_task_def)
  qed
  with rs show ?thesis by simp
qed

lemma update_end_time_ids: "map e_id (update_end_time i t rows) = map e_id rows"
  by (induction rows) (auto simp: update_end_time_def)

lemma update_end_time_open:
  "filter (\<lambda>e. e_end_time e = None) (update_end_time i t rows) =
   filter (\<lambda>e. e_id e \<noteq> i) (filter (\<lambda>e. e_end_time e = None) rows)"
  by (induction rows) (auto simp: update_end_time_def)

lemma stop_cases:
  "stopTimeTracking s now task_id userId = (r, s') \<Longrightarrow>
   s' = s \<or> (\<exists>i. s' = s\<lparr>time_entries := update_end_time i now (time_entries s)\<rparr>)"
  by (auto simp: stopTimeTracking_def Let_def split: option.splits)

lemma stop_keeps_keys:
  assumes "keys_ok s"
  shows "keys_ok (snd (stopTimeTracking s now task_id userId))"
proof -
  obtain r s' where rs: "stopTimeTracking s now task_id userId = (r, s')"
    by (cases "stopTimeTracking s now task_id userId")
  have "\<And>i. \<forall>e\<in>set (update_end_time i now (time_entries s)). owns_task s (e_task_id e) (e_user_id e)"
    using assms by (auto simp: keys_ok_def update_end_time_def)
  with stop_cases[OF rs] assms have "keys_ok s'"
    by (auto simp: keys_ok_def update_end_time_ids)
  with rs show ?thesis by simp
qed

lemma stop_keeps_one_open:
  assumes "one_open_entry_per_task s"
  shows "one_open_entry_per_task (snd (stopTimeTracking s now task_id userId))"
proof -
  obtain r s' where rs: "stopTimeTracking s now task_id userId = (r, s')"
    by (cases "stopTimeTracking s now task_id userId")
  have "\<And>i. distinct (map e_task_id (filter (\<lambda>e. e_end_time e = None)
      (update_end_time i now (time_entries s))))"
    unfolding update_end_time_open
    by (rule distinct_map_filter) (use assms in \<open>simp add: one_open_entry_per_task_def\<close>)
  with stop_cases[OF rs] assms have "one_open_entry_per_task s'"
    by (auto simp: one_open_entry_per_task_def)
  with rs show ?thesis by simp
qed

lemma serve_keeps:
  assumes "keys_ok s \<and> one_open_entry_per_task s"
  shows "keys_ok (serve s c) \<and> one_open_entry_per_task (serve s c)"
  using assms
  by (cases c) (simp_all add: start_keeps_keys start_keeps_one_open stop_keeps_keys stop_keeps_one_open)

text \<open>
  C1, as amended. When start and stop calls are served one after the other, each to its
  response, on a store whose keys hold and that has no task with two open entries, the
  store never comes to hold two entries with the same task id and a null end time. The
  check for an open entry and the insert are two store calls.
\<close>

theorem calls_in_turn_keep_one_open_entry:
  assumes "keys_ok s" and "one_open_entry_per_task s"
  shows "one_open_entry_per_task (foldl serve s calls) \<and> keys_ok (foldl serve s calls)"
proof -
  have "keys_ok (foldl serve s calls) \<and> one_open_entry_per_task (foldl serve s calls)"
    using assms
  proof (induction calls arbitrary: s)
    case Nil
    then show ?case by simp
  next
    case (Cons c calls)
    from serve_keeps[of s c] Cons.prems
    have "keys_ok (serve s c)" "one_open_entry_per_task (serve s c)" by simp_all
    from Cons.IH[OF this] show ?case by simp
  qed
  then show ?thesis by simp
qed

theorem calls_in_turn_keep_one_open_entry_witness:
  "one_open_entry_per_task
     (foldl serve store_idle
        [Start ''e1'' 1000 ''t1'' ''u1'', Start ''e2'' 1001 ''t1'' ''u1'',
         Stop 2000 ''t1'' ''u1'', Start ''e3'' 3000 ''t1'' ''u1'']) \<and>
   time_entries (foldl serve store_idle
        [Start ''e1'' 1000 ''t1'' ''u1'', Start ''e2'' 1001 ''t1'' ''u1'',
         Stop 2000 ''t1'' ''u1'', Start ''e3'' 3000 ''t1'' ''u1'']) =
     [entry1\<lparr>e_end_time := Some 2000\<rparr>,
      \<lparr>e_id = ''e3'', e_task_id = ''t1'', e_user_id = ''u1'', e_start_time = 3000, e_end_time = None\<rparr>]"
proof -
  have e: "time_entries (foldl serve store_idle
        [Start ''e1'' 1000 ''t1'' ''u1'', Start ''e2'' 1001 ''t1'' ''u1'',
         Stop 2000 ''t1'' ''u1'', Start ''e3'' 3000 ''t1'' ''u1'']) =
     [entry1\<lparr>e_end_time := Some 2000\<rparr>,
      \<lparr>e_id = ''e3'', e_task_id = ''t1'', e_user_id = ''u1'', e_start_time = 3000, e_end_time = None\<rparr>]"
    by (simp add: startTimeTracking_def stopTimeTracking_def store_idle_def task1_def entry1_def
        single_def task_owned_by_def active_entry_of_def entry_of_def insert_time_entry_def
        update_end_time_def Let_def)
  from calls_in_turn_keep_one_open_entry[OF keys_ok_store_idle one_open_store_idle]
  have "one_open_entry_per_task (foldl serve store_idle
        [Start ''e1'' 1000 ''t1'' ''u1'', Start ''e2'' 1001 ''t1'' ''u1'',
         Stop 2000 ''t1'' ''u1'', Start ''e3'' 3000 ''t1'' ''u1''])"
    by (rule conjunct1)
  with e show ?thesis by (rule conjI[rotated])
qed

section \<open>Time statistics\<close>

lemma foldl_add_sum_list:
  "foldl (\<lambda>total x. total + f x) (a::int) xs = a + sum_list (map f xs)"
  by (induction xs arbitrary: a) auto

lemma time_query_entries: "map fst (time_query s userId w) = closed_entries s userId w"
  by (simp add: time_query_def closed_entries_def o_def)

lemma time_query_total:
  "foldl (\<lambda>total (entry, t). total + entry_duration entry) 0 (time_query s userId w) =
   (\<Sum>e\<leftarrow>closed_entries s userId w. the (e_end_time e) - e_start_time e)"
proof -
  have "foldl (\<lambda>total (entry, t). total + entry_duration entry) 0 (time_query s userId w) =
        foldl (\<lambda>total x. total + entry_duration (fst x)) 0 (time_query s userId w)"
    by (simp add: case_prod_unfold)
  also have "\<dots> = sum_list (map (\<lambda>x. entry_duration (fst x)) (time_query s userId w))"
    by (simp add: foldl_add_sum_list)
  also have "\<dots> = sum_list (map entry_duration (closed_entries s userId w))"
    by (simp add: time_query_entries[symmetric] o_def)
  also have "\<dots> = (\<Sum>e\<leftarrow>closed_entries s userId w. the (e_end_time e) - e_start_time e)"
    by (rule arg_cong[where f = sum_list], rule map_cong)
       (auto simp: closed_entries_def entry_duration_def getTime_def)
  finally show ?thesis .
qed

lemma time_query_tasks:
  assumes "\<forall>e\<in>set (time_entries s). \<exists>t\<in>set (tasks s). t_id t = e_task_id e"
  shows "\<not> (\<exists>(entry, t)\<in>set (time_query s userId w). t = None)"
  using assms by (auto simp: time_query_def find_None_iff)

lemma time_query_unique_tasks:
  "length (remdups (map (\<lambda>(entry, t). e_task_id entry) (time_query s userId w))) =
   card (e_task_id ` set (closed_entries s userId w))"
proof -
  have "map (\<lambda>(entry, t). e_task_id entry) (time_query s userId w) =
        map e_task_id (closed_entries s userId w)"
    by (simp add: time_query_entries[symmetric] case_prod_unfold o_def)
  then show ?thesis by (simp add: length_remdups_card_conv)
qed

lemma time_query_closed_only:
  "time_query (s\<lparr>time_entries := filter (\<lambda>e. e_end_time e \<noteq> None) (time_entries s)\<rparr>) userId w =
   time_query s userId w"
proof -
  have "filter (\<lambda>e. e_user_id e = userId \<and> e_end_time e \<noteq> None \<and>
                     gte_start w (e_start_time e) \<and> lte_end w (getTime (e_end_time e)))
          (filter (\<lambda>e. e_end_time e \<noteq> None) (time_entries s)) =
        filter (\<lambda>e. e_user_id e = userId \<and> e_end_time e \<noteq> None \<and>
                     gte_start w (e_start_time e) \<and> lte_end w (getTime (e_end_time e)))
          (time_entries s)"
    by (induction "time_entries s") (auto intro: filter_cong)
  then show ?thesis by (simp add: time_query_def)
qed

lemma getTimeStatistics_closed_only:
  "getTimeStatistics (s\<lparr>time_entries := filter (\<lambda>e. e_end_time e \<noteq> None) (time_entries s)\<rparr>) userId w =
   getTimeStatistics s userId w"
  unfolding getTimeStatistics_def time_query_closed_only ..

text \<open>
  C8. When every time entry names a task row, the time statistics are returned, and
  they are computed from the closed entries of the user in the window alone: the total
  is the sum of end time minus start time over these entries, the average per task is
  the total divided by the number of distinct task ids among them, 0 when there are
  none, and the statistics are those of the store without its open entries.
\<close>

theorem time_statistics_totals:
  assumes "\<forall>e\<in>set (time_entries s). \<exists>t\<in>set (tasks s). t_id t = e_task_id e"
  shows "\<exists>st. getTimeStatistics s userId w = Inr st \<and>
           total_time_ms st = (\<Sum>e\<leftarrow>closed_entries s userId w. the (e_end_time e) - e_start_time e) \<and>
           average_time_per_task_ms st =
             (if card (e_task_id ` set (closed_entries s userId w)) = 0 then 0
              else real_of_int (total_time_ms st) /
                   real (card (e_task_id ` set (closed_entries s userId w)))) \<and>
           getTimeStatistics
             (s\<lparr>time_entries := filter (\<lambda>e. e_end_time e \<noteq> None) (time_entries s)\<rparr>) userId w = Inr st"
proof -
  note nt = time_query_tasks[OF assms, of userId w]
  show ?thesis
    unfolding getTimeStatistics_closed_only
    unfolding getTimeStatistics_def Let_def time_query_total time_query_unique_tasks
    using nt by simp
qed

theorem time_statistics_totals_witness:
  "\<exists>st. getTimeStatistics store_two_closed ''u1'' no_window = Inr st \<and>
        total_time_ms st = 7200000 \<and> average_time_per_task_ms st = 7200000"
proof -
  have h: "\<forall>e\<in>set (time_entries store_two_closed).
             \<exists>t\<in>set (tasks store_two_closed). t_id t = e_task_id e"
    by (simp add: store_two_closed_def task1_def)
  have c: "closed_entries store_two_closed ''u1'' no_window =
     [\<lparr>e_id = ''e1'', e_task_id = ''t1'', e_user_id = ''u1'',
       e_start_time = 0, e_end_time = Some 1800000\<rparr>,
      \<lparr>e_id = ''e2'', e_task_id = ''t1'', e_user_id = ''u1'',
       e_start_time = 86400000, e_end_time = Some 91800000\<rparr>]"
    by (simp add: closed_entries_def store_two_closed_def no_window_def gte_start_def lte_end_def)
  from time_statistics_totals[OF h, of "''u1''" no_window] obtain st where
    "getTimeStatistics store_two_closed ''u1'' no_window = Inr st"
    "total_time_ms st =
       (\<Sum>e\<leftarrow>closed_entries store_two_closed ''u1'' no_window. the (e_end_time e) - e_start_time e)"
    "average_time_per_task_ms st =
       (if card (e_task_id ` set (closed_entries store_two_closed ''u1'' no_window)) = 0 then 0
        else real_of_int (total_time_ms st) /
             real (card (e_task_id ` set (closed_entries store_two_closed ''u1'' no_window))))"
    by blast
  then show ?thesis by (simp add: c)
qed

text \<open>
  The statistics of the example: two closed entries of 30 and of 90 minutes on one task,
  and an open entry that counts nowhere.
\<close>

lemma example_time_distribution:
  "getTimeStatistics store_two_closed ''u1'' no_window =
   Inr \<lparr>total_time_ms = 7200000, total_time_hours = 2, time_by_priority = [(High, 7200000)],
        average_time_per_task_ms = 7200000, average_time_per_task_hours = 2,
        time_by_day = [(''Thursday'', 1800000), (''Friday'', 5400000)]\<rparr>"
  by (simp add: getTimeStatistics_def time_query_def store_two_closed_def task1_def no_window_def
      gte_start_def lte_end_def getTime_def entry_duration_def weekday_long_def
      toLocaleDateString_def ms_per_day_def Let_def)

end
